theory Spec2Isabelle
  imports Main "HOL-Library.AList"
begin

section \<open>Values\<close>

text \<open>
  A model of the class \<open>Multipart\<close> of \<open>src/Multipart/index.ts\<close>. Strings are lists
  of characters, and the length of a string or of a chunk is the length of the list.
  Numbers are integers: sizes and limits are whole numbers of bytes.
\<close>

text \<open>
  Values that are thrown or passed to a reject callback. \<open>Exception\<close> is the
  exception class of the utilities package (message, status, code); \<open>Error\<close> is a plain
  error object such as the decoder emits; \<open>TypeError\<close> is what the language raises on a
  property read or a call through \<open>undefined\<close>.
\<close>

datatype exn =
    Exception (message: string) (status: int) (code: string)
  | Error (message: string)
  | TypeError (message: string)

text \<open>The \<open>limit\<close> option is a number or a human-readable size string.\<close>

datatype limit_spec = LimitNumber int | LimitString string

text \<open>A configuration object; \<open>None\<close> is an absent property.\<close>

record config =
  limit :: "limit_spec option"
  maxFields :: "int option"

text \<open>\<open>Object.assign(target, source)\<close>: the properties present in the source win;
  an \<open>undefined\<close> source changes nothing.\<close>

definition assign :: "config \<Rightarrow> config option \<Rightarrow> config" where
  "assign target source =
     (case source of
        None \<Rightarrow> target
      | Some src \<Rightarrow>
          \<lparr> limit = (case limit src of None \<Rightarrow> limit target | Some l \<Rightarrow> Some l),
            maxFields = (case maxFields src of None \<Rightarrow> maxFields target | Some m \<Rightarrow> Some m) \<rparr>)"

text \<open>The per-handler options are opaque to the coordinator: it only hands them on.\<close>

datatype validationOptions =
  ValidationOptions (vsize: "limit_spec option") (vtypes: "string list") (vextnames: "string list")

text \<open>A registered binding \<open>{ handler, options }\<close>. The handler function is named by a
  number; what it does is decided by the environment (see the events below).
  \<open>options = None\<close> is \<open>undefined\<close>.\<close>

record binding =
  handler :: nat
  options :: "validationOptions option"

text \<open>
  The \<open>handlers\<close> field is an ordinary object literal \<open>{}\<close>: its own properties in
  insertion order, and its prototype. An assignment to the key \<open>__proto__\<close> does not
  create an own property but replaces the prototype; \<open>proto = None\<close> is the initial
  prototype \<open>Object.prototype\<close>.
\<close>

record handlersObj =
  own :: "(string \<times> binding) list"
  proto :: "binding option"

text \<open>The result of reading a property of the \<open>handlers\<close> object: \<open>undefined\<close>, a
  binding, or a truthy value that is not a binding (a member inherited from the prototype
  chain, which has neither a \<open>handler\<close> nor an \<open>options\<close> property).\<close>

datatype property = Undefined | Bound binding | Foreign

definition objectPrototypeKeys :: "string list" where
  "objectPrototypeKeys =
     [''constructor'', ''__defineGetter__'', ''__defineSetter__'', ''hasOwnProperty'',
      ''__lookupGetter__'', ''__lookupSetter__'', ''isPrototypeOf'', ''propertyIsEnumerable'',
      ''toString'', ''valueOf'', ''__proto__'', ''toLocaleString'']"

definition getProp :: "handlersObj \<Rightarrow> string \<Rightarrow> property" where
  "getProp h k =
     (case map_of (own h) k of
        Some b \<Rightarrow> Bound b
      | None \<Rightarrow>
          (case proto h of
             None \<Rightarrow> if k \<in> set objectPrototypeKeys then Foreign else Undefined
           | Some b \<Rightarrow>
               if k = ''__proto__'' then Bound b
               else if k = ''handler'' then Foreign
               else if k = ''options'' then (if options b = None then Undefined else Foreign)
               else if k \<in> set objectPrototypeKeys then Foreign
               else Undefined))"

definition setProp :: "handlersObj \<Rightarrow> string \<Rightarrow> binding \<Rightarrow> handlersObj" where
  "setProp h k b =
     (if k = ''__proto__'' then h\<lparr>proto := Some b\<rparr>
      else h\<lparr>own := AList.update k b (own h)\<rparr>)"

section \<open>Collaborators\<close>

subsection \<open>The field and file accumulator\<close>

text \<open>
  Modelled from the spec: the class \<open>FormFields\<close> (imported from \<open>../FormFields\<close>) is not
  among the sources. Section 4.4 of the specification: \<open>add(key, value)\<close> appends the
  value to the ordered sequence stored under the key, creating the sequence if absent;
  \<open>get()\<close> returns, for each key with exactly one accumulated value, that scalar value,
  and for keys with several values the ordered sequence; keys are in first-insertion
  order.
\<close>

type_synonym 'v formFields = "(string \<times> 'v list) list"

definition FormFields_add :: "string \<Rightarrow> 'v \<Rightarrow> 'v formFields \<Rightarrow> 'v formFields" where
  "FormFields_add key v acc =
     (case map_of acc key of
        None \<Rightarrow> acc @ [(key, [v])]
      | Some vs \<Rightarrow> AList.update key (vs @ [v]) acc)"

datatype 'v entry = Scalar 'v | Sequence "'v list"

definition FormFields_get :: "'v formFields \<Rightarrow> (string \<times> 'v entry) list" where
  "FormFields_get acc =
     map (\<lambda>(k, vs). (k, case vs of [v] \<Rightarrow> Scalar v | _ \<Rightarrow> Sequence vs)) acc"

subsection \<open>The part and its progress tracker\<close>

text \<open>A part as the decoder hands it over. Of the stream itself the model keeps what the
  coordinator does to it: whether it was resumed (drained) and the errors it handed to
  \<open>part.emit('error', ...)\<close>, whether or not that call returned.
  An absent name and the empty name are both falsy; both are \<open>''''\<close> here.\<close>

record part =
  name :: string
  filename :: string
  resumed :: bool
  emitted :: "exn list"

datatype fileStatus = Pending | Consumed | Failed

record multipartFile =
  fieldName :: string
  clientName :: string
  bytesSeen :: nat
  fstatus :: fileStatus
  errors :: "exn list"

text \<open>
  Modelled from the spec: the class \<open>PartHandler\<close> (imported from \<open>./PartHandler\<close>) is not
  among the sources. The specification gives its interface: it is constructed from a
  part and per-handler options and exposes \<open>reportProgress(chunk, length)\<close>,
  \<open>reportSuccess(value)\<close>, \<open>reportError(error)\<close> and \<open>getFile()\<close>, which returns a file
  record or nothing; a handler error is recorded on the status of the file and validation
  errors. The comment at the call of \<open>getFile\<close> in \<open>handlePart\<close> adds that the file is
  \<open>null\<close> when the part consumer does not report progress. The tracker is the record of
  what was reported to it.
\<close>

record partHandler =
  ph_fieldName :: string
  ph_clientName :: string
  ph_options :: "validationOptions option"
  ph_chunks :: "(string \<times> nat) list"
  ph_success :: "string option"
  ph_errors :: "exn list"

definition PartHandler_new :: "part \<Rightarrow> validationOptions option \<Rightarrow> partHandler" where
  "PartHandler_new p opts =
     \<lparr> ph_fieldName = name p, ph_clientName = filename p, ph_options = opts,
       ph_chunks = [], ph_success = None, ph_errors = [] \<rparr>"

definition reportProgress :: "string \<Rightarrow> nat \<Rightarrow> partHandler \<Rightarrow> partHandler" where
  "reportProgress line lineLength ph = ph\<lparr>ph_chunks := ph_chunks ph @ [(line, lineLength)]\<rparr>"

definition reportSuccess :: "string \<Rightarrow> partHandler \<Rightarrow> partHandler" where
  "reportSuccess response ph = ph\<lparr>ph_success := Some response\<rparr>"

definition reportError :: "exn \<Rightarrow> partHandler \<Rightarrow> partHandler" where
  "reportError error ph = ph\<lparr>ph_errors := ph_errors ph @ [error]\<rparr>"

definition getFile :: "partHandler \<Rightarrow> multipartFile option" where
  "getFile ph =
     (if ph_chunks ph = [] then None
      else Some \<lparr> fieldName = ph_fieldName ph,
                  clientName = ph_clientName ph,
                  bytesSeen = sum_list (map snd (ph_chunks ph)),
                  fstatus = (if ph_errors ph \<noteq> [] then Failed
                                else if ph_success ph \<noteq> None then Consumed else Pending),
                  errors = ph_errors ph \<rparr>)"


section \<open>The coordinator\<close>

text \<open>The decoder object \<open>form\<close>: the option it was constructed with, its backlog
  counter \<open>flushing\<close> (owned and changed by the decoder, read by \<open>isClosed\<close>; it is 0
  in a new decoder), and whether \<open>parse\<close> has been called on it.\<close>

record form =
  form_maxFields :: "int option"
  flushing :: int
  parsing :: bool

text \<open>The request context as far as \<open>cleanup\<close> touches it: the property
  \<open>__raw_files\<close> and the calls of \<open>setInitialBody\<close>, oldest first.\<close>

record request =
  raw_files :: "(string \<times> multipartFile entry) list option"
  initialBodies :: "(string \<times> string entry) list list"

text \<open>The promise returned by the call of \<open>process\<close> that started the parse. A promise
  is settled once: \<open>resolve\<close> and \<open>reject\<close> on a settled promise do nothing.\<close>

datatype promise = NotCreated | Unsettled | Resolved | Rejected exn

definition resolve :: "promise \<Rightarrow> promise" where
  "resolve p = (if p = Unsettled then Resolved else p)"

definition reject :: "exn \<Rightarrow> promise \<Rightarrow> promise" where
  "reject e p = (if p = Unsettled then Rejected e else p)"

text \<open>
  \<open>handlePart\<close> is an asynchronous function and the listener of the \<open>part\<close> event awaits
  it, so the handling of one part runs in up to three turns: up to the
  \<open>await handler.handler(...)\<close> (then the part is \<open>Handling\<close>), from there to the end of
  \<open>handlePart\<close> (\<open>Finished\<close>), and the rest of the listener after
  \<open>await this.handlePart(part)\<close> (\<open>Checked\<close>). Other callbacks may run in between.
  \<open>run_handler\<close> is the value the handler lookup gave and \<open>run_tracker\<close> the
  \<open>PartHandler\<close> made for the part, if one was made. \<open>run_listening\<close> tells
  whether the part's stream has a listener for its \<open>error\<close> event: nothing in the class
  attaches one, so a part starts without, and whoever holds the part may attach one.
\<close>

datatype phase = Handling | Finished | Checked

record partRun =
  run_part :: part
  run_handler :: property
  run_tracker :: "partHandler option"
  run_phase :: phase
  run_listening :: bool

record coordinator =
  handlers :: handlersObj
  fields' :: "string formFields"
  files :: "multipartFile formFields"
  pendingHandlers :: int
  form :: "form option"
  upperLimit :: "int option"
  processedBytes :: int
  consumed :: bool
  request :: request
  config :: config
  promise :: promise
  parts :: "(nat \<times> partRun) list"


section \<open>Operations of the class\<close>

text \<open>The constructor: \<open>config\<close> is the constructor's argument (\<open>{}\<close> by default).\<close>

definition Multipart :: "config \<Rightarrow> coordinator" where
  "Multipart cfg =
     \<lparr> handlers = \<lparr> own = [], proto = None \<rparr>, fields' = [], files = [],
       pendingHandlers = 0, form = None, upperLimit = None, processedBytes = 0,
       consumed = False, request = \<lparr> raw_files = None, initialBodies = [] \<rparr>,
       config = cfg, promise = NotCreated, parts = [] \<rparr>"

text \<open>\<open>isClosed\<close> reads \<open>this.form['flushing']\<close>, which throws while \<open>form\<close> is
  \<open>undefined\<close>.\<close>

definition isClosed :: "coordinator \<Rightarrow> exn + bool" where
  "isClosed s =
     (case form s of
        None \<Rightarrow> Inl (TypeError ''Cannot read property flushing of undefined'')
      | Some f \<Rightarrow> Inr (flushing f \<le> 0 \<and> pendingHandlers s \<le> 0))"

text \<open>\<open>name.replace(/\[\d*\]/, '')\<close>: the pattern has no anchor and no \<open>g\<close> flag, so
  the leftmost occurrence of \<open>[\<close>, digits, \<open>]\<close> is removed, wherever it is.
  \<open>matchIndex s\<close> matches the pattern at the start of \<open>s\<close> and gives the rest.\<close>

definition digit :: "char \<Rightarrow> bool" where
  "digit c = (c \<in> set ''0123456789'')"

definition matchIndex :: "string \<Rightarrow> string option" where
  "matchIndex s =
     (case s of
        [] \<Rightarrow> None
      | c # t \<Rightarrow>
          if c = CHR ''[''
          then (case dropWhile digit t of
                  [] \<Rightarrow> None
                | d # r \<Rightarrow> if d = CHR '']'' then Some r else None)
          else None)"

fun getHandlerName :: "string \<Rightarrow> string" where
  "getHandlerName [] = []"
| "getHandlerName (c # cs) =
     (case matchIndex (c # cs) of
        Some r \<Rightarrow> r
      | None \<Rightarrow> c # getHandlerName cs)"

definition entityTooLarge :: exn where
  "entityTooLarge = Exception ''request entity too large'' 413 ''E_REQUEST_ENTITY_TOO_LARGE''"

text \<open>\<open>!this.upperLimit\<close> holds for \<open>undefined\<close>, \<open>null\<close> and \<open>0\<close>.\<close>

definition validateProcessedBytes :: "nat \<Rightarrow> coordinator \<Rightarrow> exn option \<times> coordinator" where
  "validateProcessedBytes chunkLength s =
     (case upperLimit s of
        None \<Rightarrow> (None, s)
      | Some u \<Rightarrow>
          if u = 0 then (None, s)
          else (let s1 = s\<lparr>processedBytes := processedBytes s + int chunkLength\<rparr>
                in if processedBytes s1 > u then (Some entityTooLarge, s1) else (None, s1)))"

text \<open>The listener of the decoder's \<open>error\<close> event, registered in \<open>process\<close>.\<close>

definition onError :: "exn \<Rightarrow> coordinator \<Rightarrow> coordinator" where
  "onError error s =
     (if message error = ''maxFields 1 exceeded.''
      then s\<lparr>promise := reject (Exception ''Max fields limit exceeded'' 413
                                    ''E_REQUEST_ENTITY_TOO_LARGE'') (promise s)\<rparr>
      else s\<lparr>promise := reject error (promise s)\<rparr>)"

text \<open>\<open>abort\<close> emits \<open>error\<close> on the decoder, which runs the listener above at once.
  The first component is the exception thrown, if any: \<open>this.form.emit\<close> throws while
  \<open>form\<close> is \<open>undefined\<close>.\<close>

definition abort :: "exn \<Rightarrow> coordinator \<Rightarrow> exn option \<times> coordinator" where
  "abort error s =
     (case form s of
        None \<Rightarrow> (Some (TypeError ''Cannot read property emit of undefined''), s)
      | Some f \<Rightarrow> (None, onError error s))"

definition cleanup :: "coordinator \<Rightarrow> coordinator" where
  "cleanup s =
     s\<lparr>request := (request s)\<lparr>raw_files := Some (FormFields_get (files s)),
                               initialBodies := initialBodies (request s)
                                                  @ [FormFields_get (fields' s)]\<rparr>\<rparr>"

definition onFile :: "string \<Rightarrow> validationOptions option \<Rightarrow> nat \<Rightarrow> coordinator \<Rightarrow> coordinator" where
  "onFile k opts h s = s\<lparr>handlers := setProp (handlers s) k \<lparr> handler = h, options = opts \<rparr>\<rparr>"

text \<open>\<open>bytes\<close> is the size parser of the package of that name, a parameter of the model:
  it gives \<open>null\<close> (here \<open>None\<close>) for a string it cannot parse.\<close>

definition processConfig :: "(string \<Rightarrow> int option) \<Rightarrow> config option \<Rightarrow> coordinator \<Rightarrow> coordinator" where
  "processConfig bytes cfg s =
     (let c = assign (config s) cfg
      in s\<lparr>config := c,
           upperLimit := (case limit c of
                            Some (LimitString str) \<Rightarrow> bytes str
                          | Some (LimitNumber n) \<Rightarrow> Some n
                          | None \<Rightarrow> None)\<rparr>)"

text \<open>
  \<open>process\<close> up to its return. The first component is \<open>Some e\<close> when the promise this
  call returns is rejected with \<open>e\<close> on the spot; otherwise the promise it returns is
  the field \<open>promise\<close> of the state, which the listeners settle later. The listeners
  are the functions \<open>onError\<close>, \<open>onPart\<close>, \<open>onField\<close> and \<open>onClose\<close>; they exist
  once \<open>form\<close> is set.
\<close>

definition alreadyConsumed :: exn where
  "alreadyConsumed = Exception ''multipart stream has already been consumed'' 500 ''E_RUNTIME_EXCEPTION''"

definition process :: "(string \<Rightarrow> int option) \<Rightarrow> config option \<Rightarrow> coordinator \<Rightarrow> exn option \<times> coordinator" where
  "process bytes cfg s =
     (if consumed s then (Some alreadyConsumed, s)
      else (let s1 = processConfig bytes cfg (s\<lparr>promise := Unsettled, consumed := True\<rparr>)
            in (None, s1\<lparr>form := Some \<lparr> form_maxFields = maxFields (config s1),
                                        flushing = 0, parsing = True \<rparr>\<rparr>)))"


subsection \<open>Handling a part\<close>

text \<open>How a handler's invocation ends: it returns a value (\<open>None\<close> when the value is
  falsy, as \<open>undefined\<close>) or it throws or rejects.\<close>

datatype outcome = Returned "string option" | Threw exn

definition setRun :: "nat \<Rightarrow> partRun \<Rightarrow> coordinator \<Rightarrow> coordinator" where
  "setRun pid r s = s\<lparr>parts := AList.update pid r (parts s)\<rparr>"

text \<open>The handler lookup of \<open>handlePart\<close>:
  \<open>this.handlers[this.getHandlerName(part.name)] || this.handlers['*']\<close>.\<close>

definition resolveHandler :: "handlersObj \<Rightarrow> string \<Rightarrow> property" where
  "resolveHandler hs partName =
     (case getProp hs (getHandlerName partName) of
        Undefined \<Rightarrow> getProp hs ''*''
      | v \<Rightarrow> v)"

text \<open>The end of \<open>handlePart\<close>, from the handler's outcome on: the report to the
  tracker, the file pulled from it and added under its field name, the counter.\<close>

definition afterHandler :: "outcome \<Rightarrow> partHandler \<Rightarrow> coordinator \<Rightarrow> partHandler \<times> coordinator" where
  "afterHandler out ph s =
     (let ph1 = (case out of
                   Returned None \<Rightarrow> ph
                 | Returned (Some response) \<Rightarrow> reportSuccess response ph
                 | Threw error \<Rightarrow> reportError error ph);
          s1 = (case getFile ph1 of
                  None \<Rightarrow> s
                | Some f \<Rightarrow> s\<lparr>files := FormFields_add (fieldName f) f (files s)\<rparr>)
      in (ph1, s1\<lparr>pendingHandlers := pendingHandlers s1 - 1\<rparr>))"

text \<open>
  \<open>handlePart\<close> up to \<open>await handler.handler(...)\<close>, for the part numbered \<open>pid\<close>.
  A part without a name or without a handler is resumed and \<open>handlePart\<close> returns.
  When the lookup gives a truthy value that is no binding, \<open>handler.options\<close> is
  \<open>undefined\<close> and the call \<open>handler.handler(...)\<close> throws inside the \<open>try\<close>, so the
  rest of \<open>handlePart\<close> runs in the same turn.
\<close>

definition handlePart :: "nat \<Rightarrow> part \<Rightarrow> coordinator \<Rightarrow> coordinator" where
  "handlePart pid p s =
     (if name p = []
      then setRun pid \<lparr> run_part = p\<lparr>resumed := True\<rparr>, run_handler = Undefined,
                        run_tracker = None, run_phase = Finished,
                        run_listening = False \<rparr> s
      else (case resolveHandler (handlers s) (name p) of
              Undefined \<Rightarrow>
                setRun pid \<lparr> run_part = p\<lparr>resumed := True\<rparr>, run_handler = Undefined,
                             run_tracker = None, run_phase = Finished,
                        run_listening = False \<rparr> s
            | Bound b \<Rightarrow>
                setRun pid \<lparr> run_part = p, run_handler = Bound b,
                             run_tracker = Some (PartHandler_new p (options b)),
                             run_phase = Handling, run_listening = False \<rparr>
                  (s\<lparr>pendingHandlers := pendingHandlers s + 1\<rparr>)
            | Foreign \<Rightarrow>
                (case afterHandler (Threw (TypeError ''handler.handler is not a function''))
                        (PartHandler_new p None)
                        (s\<lparr>pendingHandlers := pendingHandlers s + 1\<rparr>) of
                   (ph, s1) \<Rightarrow>
                     setRun pid \<lparr> run_part = p, run_handler = Foreign,
                                  run_tracker = Some ph, run_phase = Finished,
                                  run_listening = False \<rparr> s1)))"

text \<open>The handler of part \<open>pid\<close> settles: the rest of \<open>handlePart\<close>. Nothing happens
  for a part that is not awaiting its handler.\<close>

definition handlePartSettled :: "nat \<Rightarrow> outcome \<Rightarrow> coordinator \<Rightarrow> coordinator" where
  "handlePartSettled pid out s =
     (case map_of (parts s) pid of
        None \<Rightarrow> s
      | Some r \<Rightarrow>
          (case run_tracker r of
             None \<Rightarrow> s
           | Some ph \<Rightarrow>
               if run_phase r = Handling
               then (case afterHandler out ph s of
                       (ph1, s1) \<Rightarrow> setRun pid (r\<lparr>run_tracker := Some ph1, run_phase := Finished\<rparr>) s1)
               else s))"

text \<open>
  The progress callback that \<open>handlePart\<close> passes to the handler of part \<open>pid\<close>, called
  with one chunk. It exists only for a part whose handler was invoked. The first
  component is the exception thrown, if any. \<open>part.emit('error', error)\<close> on a stream
  without a listener for \<open>error\<close> throws the error: the callback ends there, before
  \<open>this.abort(error)\<close> and before \<open>partHandler.reportProgress\<close>.
\<close>

definition emitOnPart :: "exn \<Rightarrow> partRun \<Rightarrow> partRun" where
  "emitOnPart error r = r\<lparr>run_part := (run_part r)\<lparr>emitted := emitted (run_part r) @ [error]\<rparr>\<rparr>"

definition trackProgress :: "string \<Rightarrow> nat \<Rightarrow> partRun \<Rightarrow> partRun" where
  "trackProgress line lineLength r =
     r\<lparr>run_tracker := map_option (reportProgress line lineLength) (run_tracker r)\<rparr>"

definition hasCallback :: "nat \<Rightarrow> coordinator \<Rightarrow> bool" where
  "hasCallback pid s =
     (case map_of (parts s) pid of
        None \<Rightarrow> False
      | Some r \<Rightarrow> (case run_handler r of Bound b \<Rightarrow> True | _ \<Rightarrow> False))"

definition progress :: "nat \<Rightarrow> string \<Rightarrow> coordinator \<Rightarrow> exn option \<times> coordinator" where
  "progress pid line s =
     (case map_of (parts s) pid of
        None \<Rightarrow> (None, s)
      | Some r0 \<Rightarrow>
          if \<not> hasCallback pid s then (None, s)
          else (let lineLength = length line
                in case validateProcessedBytes lineLength s of
                     (None, s1) \<Rightarrow> (None, setRun pid (trackProgress line lineLength r0) s1)
                   | (Some error, s1) \<Rightarrow>
                       if \<not> run_listening r0
                       then (Some error, setRun pid (emitOnPart error r0) s1)
                       else (case abort error (setRun pid (emitOnPart error r0) s1) of
                               (Some thrown, s2) \<Rightarrow> (Some thrown, s2)
                             | (None, s2) \<Rightarrow>
                                 (None, setRun pid (trackProgress line lineLength
                                                      (emitOnPart error r0)) s2))))"

text \<open>The rest of the \<open>part\<close> listener, after \<open>await this.handlePart(part)\<close>; also the
  whole \<open>close\<close> listener, which is the same check.\<close>

definition checkClosed :: "coordinator \<Rightarrow> coordinator" where
  "checkClosed s =
     (case isClosed s of
        Inr True \<Rightarrow> (cleanup s)\<lparr>promise := resolve (promise s)\<rparr>
      | _ \<Rightarrow> s)"

definition onPartHandled :: "nat \<Rightarrow> coordinator \<Rightarrow> coordinator" where
  "onPartHandled pid s =
     (case map_of (parts s) pid of
        None \<Rightarrow> s
      | Some r \<Rightarrow>
          if run_phase r = Finished
          then checkClosed (setRun pid (r\<lparr>run_phase := Checked\<rparr>) s)
          else s)"

definition onClose :: "coordinator \<Rightarrow> coordinator" where
  "onClose s = checkClosed s"

subsection \<open>Handling a field\<close>

text \<open>
  \<open>handleField\<close> and the \<open>field\<close> listener around it. The recording operation
  \<open>this.fields.add\<close> is the parameter \<open>add\<close>, which may throw (\<open>Inl\<close>): the listener
  catches what \<open>handleField\<close> throws and aborts with it. The first component of the
  result is the exception that leaves the function.
\<close>

type_synonym recorder = "string \<Rightarrow> string \<Rightarrow> string formFields \<Rightarrow> exn + string formFields"

definition handleField :: "recorder \<Rightarrow> string \<Rightarrow> string \<Rightarrow> coordinator \<Rightarrow> exn option \<times> coordinator" where
  "handleField add key val s =
     (if key = [] then (None, s)
      else (case validateProcessedBytes (length val) s of
              (Some error, s1) \<Rightarrow> abort error s1
            | (None, s1) \<Rightarrow>
                (case add key val (fields' s1) of
                   Inl thrown \<Rightarrow> (Some thrown, s1)
                 | Inr acc \<Rightarrow> (None, s1\<lparr>fields' := acc\<rparr>))))"

definition onField :: "recorder \<Rightarrow> string \<Rightarrow> string \<Rightarrow> coordinator \<Rightarrow> exn option \<times> coordinator" where
  "onField add key val s =
     (case handleField add key val s of
        (Some error, s1) \<Rightarrow> abort error s1
      | (None, s1) \<Rightarrow> (None, s1))"

text \<open>The recorder of the accumulator modelled above, which does not throw.\<close>

definition fieldsAdd :: recorder where
  "fieldsAdd key val acc = Inr (FormFields_add key val acc)"

text \<open>Someone who holds part \<open>pid\<close> (its handler, say) attaches a listener for its
  \<open>error\<close> event: \<open>part.on('error', ...)\<close>.\<close>

definition addErrorListener :: "nat \<Rightarrow> coordinator \<Rightarrow> coordinator" where
  "addErrorListener pid s =
     (case map_of (parts s) pid of
        None \<Rightarrow> s
      | Some r \<Rightarrow> setRun pid (r\<lparr>run_listening := True\<rparr>) s)"

section \<open>Runs\<close>

text \<open>
  What can happen to an instance, one callback at a time: the calls of its public
  methods, the decoder's notifications (and the decoder changing its own backlog
  counter), the handlers' progress reports and completions, and a listener for \<open>error\<close>
  being attached to a part. A notification finds
  no listener before \<open>process\<close> has made the decoder, and the decoder emits each part
  once.
\<close>

datatype event =
    OnFile string "validationOptions option" nat
  | Process "config option"
  | Abort exn
  | DecoderPart nat string string
  | DecoderField string string
  | DecoderError exn
  | DecoderClose
  | DecoderFlushing int
  | HandlerProgress nat string
  | HandlerSettled nat outcome
  | PartHandled nat
  | ErrorListenerAdded nat

definition step :: "(string \<Rightarrow> int option) \<Rightarrow> event \<Rightarrow> coordinator \<Rightarrow> coordinator" where
  "step bytes e s =
     (case e of
        OnFile k opts h \<Rightarrow> onFile k opts h s
      | Process cfg \<Rightarrow> snd (process bytes cfg s)
      | Abort error \<Rightarrow> snd (abort error s)
      | DecoderPart pid nm fnm \<Rightarrow>
          if form s = None \<or> map_of (parts s) pid \<noteq> None then s
          else handlePart pid \<lparr> name = nm, filename = fnm, resumed = False, emitted = [] \<rparr> s
      | DecoderField key val \<Rightarrow>
          if form s = None then s else snd (onField fieldsAdd key val s)
      | DecoderError error \<Rightarrow>
          if form s = None then s else onError error s
      | DecoderClose \<Rightarrow>
          if form s = None then s else onClose s
      | DecoderFlushing n \<Rightarrow>
          (case form s of None \<Rightarrow> s | Some f \<Rightarrow> s\<lparr>form := Some (f\<lparr>flushing := n\<rparr>)\<rparr>)
      | HandlerProgress pid line \<Rightarrow> snd (progress pid line s)
      | HandlerSettled pid out \<Rightarrow> handlePartSettled pid out s
      | PartHandled pid \<Rightarrow> onPartHandled pid s
      | ErrorListenerAdded pid \<Rightarrow> addErrorListener pid s)"

fun run :: "(string \<Rightarrow> int option) \<Rightarrow> event list \<Rightarrow> coordinator \<Rightarrow> coordinator" where
  "run bytes [] s = s"
| "run bytes (e # es) s = run bytes es (step bytes e s)"

section \<open>Auxiliary notions\<close>

fun isProcess :: "event \<Rightarrow> bool" where
  "isProcess (Process cfg) = True"
| "isProcess e = False"

text \<open>An instance on which \<open>process\<close> has not been called.\<close>

definition idle :: "coordinator \<Rightarrow> bool" where
  "idle s = (form s = None \<and> promise s = NotCreated \<and> parts s = [] \<and> \<not> consumed s)"

text \<open>\<open>!this.upperLimit\<close>: no limit is in force.\<close>

definition unlimited :: "int option \<Rightarrow> bool" where
  "unlimited u = (u = None \<or> u = Some 0)"

text \<open>The callbacks that hand an error from outside to the \<open>error\<close> listener.\<close>

fun isFailure :: "event \<Rightarrow> bool" where
  "isFailure (Abort e) = True"
| "isFailure (DecoderError e) = True"
| "isFailure e = False"

text \<open>What the \<open>error\<close> listener passes to \<open>reject\<close> for a given error.\<close>

definition rejection :: "exn \<Rightarrow> exn" where
  "rejection error =
     (if message error = ''maxFields 1 exceeded.''
      then Exception ''Max fields limit exceeded'' 413 ''E_REQUEST_ENTITY_TOO_LARGE''
      else error)"

text \<open>A started instance with no limit in force.\<close>

definition off :: "coordinator \<Rightarrow> bool" where
  "off s = (consumed s \<and> unlimited (upperLimit s))"

text \<open>The state that a call of \<open>process\<close> leaves.\<close>

definition started :: "(string \<Rightarrow> int option) \<Rightarrow> config option \<Rightarrow> coordinator \<Rightarrow> coordinator" where
  "started bytes cfg s = snd (process bytes cfg s)"

definition withoutLimit :: "config \<Rightarrow> config" where
  "withoutLimit c = c\<lparr>limit := None\<rparr>"

text \<open>The errors handed so far to \<open>emit\<close> on part \<open>pid\<close>, whether its stream has a
  listener for \<open>error\<close>, and the tracker made for it.\<close>

definition emittedOn :: "nat \<Rightarrow> coordinator \<Rightarrow> exn list" where
  "emittedOn pid s =
     (case map_of (parts s) pid of None \<Rightarrow> [] | Some r \<Rightarrow> emitted (run_part r))"

definition listeningOn :: "nat \<Rightarrow> coordinator \<Rightarrow> bool" where
  "listeningOn pid s =
     (case map_of (parts s) pid of None \<Rightarrow> False | Some r \<Rightarrow> run_listening r)"

definition trackerOf :: "nat \<Rightarrow> coordinator \<Rightarrow> partHandler option" where
  "trackerOf pid s =
     (case map_of (parts s) pid of None \<Rightarrow> None | Some r \<Rightarrow> run_tracker r)"

text \<open>Parts exist only once the decoder does.\<close>

definition wired :: "coordinator \<Rightarrow> bool" where
  "wired s = (form s = None \<longrightarrow> parts s = [])"

text \<open>Part \<open>pid\<close> is awaiting its handler. \<open>addFile\<close> is what \<open>handlePart\<close> does with
  the file pulled from a tracker.\<close>

definition awaiting :: "nat \<Rightarrow> coordinator \<Rightarrow> bool" where
  "awaiting pid s =
     (case map_of (parts s) pid of
        None \<Rightarrow> False
      | Some r \<Rightarrow> run_phase r = Handling \<and> run_tracker r \<noteq> None)"

definition addFile :: "partHandler \<Rightarrow> multipartFile formFields \<Rightarrow> multipartFile formFields" where
  "addFile ph acc = (case getFile ph of None \<Rightarrow> acc | Some f \<Rightarrow> FormFields_add (fieldName f) f acc)"

text \<open>The values accumulated under a key, in order.\<close>

definition valuesOf :: "'v formFields \<Rightarrow> string \<Rightarrow> 'v list" where
  "valuesOf acc key = (case map_of acc key of None \<Rightarrow> [] | Some vs \<Rightarrow> vs)"

text \<open>An instance started with a limit of ten bytes.\<close>

definition limited10 :: coordinator where
  "limited10 = started (\<lambda>x. None) (Some \<lparr> limit = Some (LimitNumber 10), maxFields = None \<rparr>)
                 (Multipart \<lparr> limit = None, maxFields = None \<rparr>)"

text \<open>
  The normalisation in the words of the specification, for comparison with
  \<open>getHandlerName\<close>: a trailing array-index suffix, that is \<open>[\<close>, digits, \<open>]\<close> at the end
  of the name, is stripped.
\<close>

definition isIndexSuffix :: "string \<Rightarrow> bool" where
  "isIndexSuffix t =
     (case t of
        [] \<Rightarrow> False
      | c # r \<Rightarrow> c = CHR ''['' \<and> r \<noteq> [] \<and> last r = CHR '']'' \<and> list_all digit (butlast r))"

fun spec_stripTrailingIndex :: "string \<Rightarrow> string" where
  "spec_stripTrailingIndex [] = []"
| "spec_stripTrailingIndex (c # cs) =
     (if isIndexSuffix (c # cs) then [] else c # spec_stripTrailingIndex cs)"

text \<open>The pattern of \<open>getHandlerName\<close> matches at no position of \<open>p\<close> in \<open>p @ t\<close>.\<close>

fun noMatchWithin :: "string \<Rightarrow> string \<Rightarrow> bool" where
  "noMatchWithin [] t = True"
| "noMatchWithin (c # p) t = (matchIndex (c # p @ t) = None \<and> noMatchWithin p t)"

text \<open>
  The binding that \<open>onFile\<close> stored for a key, if any, and the keys for which the
  \<open>handlers\<close> object answers with a member of its prototype chain instead.
\<close>

definition registered :: "handlersObj \<Rightarrow> string \<Rightarrow> binding option" where
  "registered hs k =
     (case map_of (own hs) k of
        Some b \<Rightarrow> Some b
      | None \<Rightarrow> if k = ''__proto__'' then proto hs else None)"

definition inheritedName :: "handlersObj \<Rightarrow> string \<Rightarrow> bool" where
  "inheritedName hs k =
     (k \<in> set objectPrototypeKeys
      \<or> (case proto hs of
            None \<Rightarrow> False
          | Some b \<Rightarrow> k = ''handler'' \<or> (k = ''options'' \<and> options b \<noteq> None)))"

text \<open>The two ordinary ways \<open>handlePart\<close> starts: the handler is invoked (counter up,
  tracker made, the part awaits its handler), or the part is resumed and nothing else.\<close>

definition invokeHandler :: "nat \<Rightarrow> part \<Rightarrow> binding \<Rightarrow> coordinator \<Rightarrow> coordinator" where
  "invokeHandler pid p b s =
     setRun pid \<lparr> run_part = p, run_handler = Bound b,
                  run_tracker = Some (PartHandler_new p (options b)), run_phase = Handling, run_listening = False \<rparr>
       (s\<lparr>pendingHandlers := pendingHandlers s + 1\<rparr>)"

definition resumePart :: "nat \<Rightarrow> part \<Rightarrow> coordinator \<Rightarrow> coordinator" where
  "resumePart pid p s =
     setRun pid \<lparr> run_part = p\<lparr>resumed := True\<rparr>, run_handler = Undefined,
                  run_tracker = None, run_phase = Finished,
                        run_listening = False \<rparr> s"

text \<open>The bytes an event hands to the byte guard in a state: the value of a field with
  a non-empty key, once the listener exists, and a chunk reported through an existing
  progress callback. \<open>exceeds n s\<close>: a limit is in force and \<open>n\<close> more bytes pass it.\<close>

fun fed :: "event \<Rightarrow> coordinator \<Rightarrow> nat" where
  "fed (DecoderField key val) s = (if form s \<noteq> None \<and> key \<noteq> [] then length val else 0)"
| "fed (HandlerProgress pid line) s = (if hasCallback pid s then length line else 0)"
| "fed e s = 0"

definition exceeds :: "nat \<Rightarrow> coordinator \<Rightarrow> bool" where
  "exceeds n s =
     (case upperLimit s of
        None \<Rightarrow> False
      | Some u \<Rightarrow> u \<noteq> 0 \<and> u < processedBytes s + int n)"

text \<open>The bytes seen in the words of the specification: every field value and every
  chunk, for comparison with the counter.\<close>

fun spec_bytesSeen :: "event \<Rightarrow> nat" where
  "spec_bytesSeen (DecoderField key val) = length val"
| "spec_bytesSeen (HandlerProgress pid line) = length line"
| "spec_bytesSeen e = 0"

text \<open>An event that evaluates the completion predicate and finds it true: the decoder's
  close notification, or the rest of the \<open>part\<close> listener for a part whose handling has
  finished. \<open>settled\<close>: the promise is resolved or rejected.\<close>

fun completes :: "event \<Rightarrow> coordinator \<Rightarrow> bool" where
  "completes DecoderClose s = (isClosed s = Inr True)"
| "completes (PartHandled pid) s =
     (case map_of (parts s) pid of
        None \<Rightarrow> False
      | Some r \<Rightarrow> run_phase r = Finished \<and> isClosed s = Inr True)"
| "completes e s = False"

definition settled :: "promise \<Rightarrow> bool" where
  "settled p = (case p of Resolved \<Rightarrow> True | Rejected e \<Rightarrow> True | _ \<Rightarrow> False)"

text \<open>One upload handled to the end of \<open>handlePart\<close>, the decoder's backlog empty.\<close>

definition uploadDone :: coordinator where
  "uploadDone =
     run (\<lambda>x. None)
       [OnFile ''avatar'' None 1, Process None, DecoderFlushing 1,
        DecoderPart 0 ''avatar'' ''a.png'', HandlerProgress 0 ''hello'', DecoderFlushing 0,
        HandlerSettled 0 (Returned None)]
       (Multipart \<lparr> limit = None, maxFields = None \<rparr>)"

section \<open>Properties\<close>

subsection \<open>The byte guard leaves the rest of the state alone\<close>

lemma validate_form [simp]: "form (snd (validateProcessedBytes n s)) = form s"
  by (simp add: validateProcessedBytes_def Let_def split: option.splits)

lemma validate_promise [simp]: "promise (snd (validateProcessedBytes n s)) = promise s"
  by (simp add: validateProcessedBytes_def Let_def split: option.splits)

lemma validate_parts [simp]: "parts (snd (validateProcessedBytes n s)) = parts s"
  by (simp add: validateProcessedBytes_def Let_def split: option.splits)

lemma validate_consumed [simp]: "consumed (snd (validateProcessedBytes n s)) = consumed s"
  by (simp add: validateProcessedBytes_def Let_def split: option.splits)

lemma addErrorListener_frame [simp]:
  "form (addErrorListener pid s) = form s"
  "promise (addErrorListener pid s) = promise s"
  "consumed (addErrorListener pid s) = consumed s"
  "upperLimit (addErrorListener pid s) = upperLimit s"
  "processedBytes (addErrorListener pid s) = processedBytes s"
  "request (addErrorListener pid s) = request s"
  "fields' (addErrorListener pid s) = fields' s"
  "files (addErrorListener pid s) = files s"
  "pendingHandlers (addErrorListener pid s) = pendingHandlers s"
  by (simp_all add: addErrorListener_def setRun_def split: option.splits)

lemma addErrorListener_no_parts [simp]: "parts s = [] \<Longrightarrow> addErrorListener pid s = s"
  by (simp add: addErrorListener_def)

subsection \<open>Before \<open>process\<close>\<close>

lemma step_idle: "idle s \<Longrightarrow> \<not> isProcess e \<Longrightarrow> idle (step bytes e s)"
  by (cases e) (auto simp: idle_def step_def onFile_def abort_def progress_def
      handlePartSettled_def onPartHandled_def)

lemma run_idle: "idle s \<Longrightarrow> \<forall>e \<in> set es. \<not> isProcess e \<Longrightarrow> idle (run bytes es s)"
  by (induction es arbitrary: s) (auto simp: step_idle)

lemma new_idle: "idle (Multipart cfg)"
  by (simp add: idle_def Multipart_def)

text \<open>
  Claim C10. On an instance on which \<open>process\<close> has never been called (whatever else
  was called on it), \<open>abort(error)\<close> throws a \<open>TypeError\<close>, because \<open>form\<close> is
  \<open>undefined\<close>: nothing is rejected and the state is as before. Once \<open>process\<close> has
  made the decoder, \<open>abort(error)\<close> returns normally and rejects the outer promise
  through the decoder's \<open>error\<close> listener.
\<close>

theorem abort_before_process_throws:
  assumes "\<forall>e \<in> set es. \<not> isProcess e"
  shows "abort error (run bytes es (Multipart cfg))
           = (Some (TypeError ''Cannot read property emit of undefined''),
              run bytes es (Multipart cfg))
         \<and> promise (run bytes es (Multipart cfg)) = NotCreated
         \<and> fst (abort error (snd (process bytes c (run bytes es (Multipart cfg))))) = None
         \<and> promise (snd (abort error (snd (process bytes c (run bytes es (Multipart cfg))))))
             = Rejected (if message error = ''maxFields 1 exceeded.''
                         then Exception ''Max fields limit exceeded'' 413
                                ''E_REQUEST_ENTITY_TOO_LARGE''
                         else error)"
proof -
  have "idle (run bytes es (Multipart cfg))"
    using assms by (simp add: run_idle new_idle)
  then show ?thesis
    by (simp add: idle_def abort_def process_def processConfig_def Let_def onError_def
        reject_def)
qed

theorem abort_before_process_throws_witness:
  "abort (Error ''stop'')
        (run (\<lambda>x. None) [OnFile ''avatar'' None 1, Abort (Error ''stop'')]
           (Multipart \<lparr> limit = None, maxFields = None \<rparr>))
      = (Some (TypeError ''Cannot read property emit of undefined''),
         run (\<lambda>x. None) [OnFile ''avatar'' None 1, Abort (Error ''stop'')]
           (Multipart \<lparr> limit = None, maxFields = None \<rparr>))"
  using abort_before_process_throws
    [of "[OnFile ''avatar'' None 1, Abort (Error ''stop'')]" "Error ''stop''" "\<lambda>x. None"
        "\<lparr> limit = None, maxFields = None \<rparr>" None]
  by simp

subsection \<open>The consumed flag\<close>

lemma afterHandler_consumed [simp]: "consumed (snd (afterHandler out ph s)) = consumed s"
  by (simp add: afterHandler_def Let_def split: option.splits)

lemma setRun_consumed [simp]: "consumed (setRun pid r s) = consumed s"
  by (simp add: setRun_def)

lemma onError_consumed [simp]: "consumed (onError e s) = consumed s"
  by (simp add: onError_def)

lemma abort_consumed [simp]: "consumed (snd (abort e s)) = consumed s"
  by (simp add: abort_def split: option.splits)

lemma checkClosed_consumed [simp]: "consumed (checkClosed s) = consumed s"
  by (simp add: checkClosed_def cleanup_def split: sum.splits bool.splits)

lemma handlePart_consumed [simp]: "consumed (handlePart pid p s) = consumed s"
  by (simp add: handlePart_def case_prod_unfold split: property.splits)

lemma handlePartSettled_consumed [simp]: "consumed (handlePartSettled pid out s) = consumed s"
  by (simp add: handlePartSettled_def case_prod_unfold split: option.splits)

lemma progress_consumed [simp]: "consumed (snd (progress pid line s)) = consumed s"
  by (simp add: progress_def Let_def case_prod_unfold split: option.splits)

lemma onField_consumed [simp]: "consumed (snd (onField add k v s)) = consumed s"
  by (simp add: onField_def handleField_def case_prod_unfold split: option.splits sum.splits)

lemma step_consumed: "consumed (step bytes e s) = (consumed s \<or> isProcess e)"
  by (cases e)
     (auto simp: step_def onFile_def process_def processConfig_def Let_def onClose_def
        onPartHandled_def split: option.splits)

lemma run_consumed: "consumed s \<Longrightarrow> consumed (run bytes es s)"
  by (induction es arbitrary: s) (simp_all add: step_consumed)

lemma process_consumed: "consumed (snd (process bytes c s))"
  by (simp add: process_def processConfig_def Let_def)

text \<open>
  Claim C7. The first call of \<open>process\<close> on a new instance starts the parse. Whatever
  happens after a call of \<open>process\<close>, a later call returns a promise rejected with the
  already-consumed exception and leaves the whole state as it was: no decoder is made,
  no configuration is merged, and the promise of the first call is untouched. The flag
  \<open>consumed\<close> is true after a callback exactly when it was true before or the callback
  is a call of \<open>process\<close>, so it never goes back to false.
\<close>

theorem second_process_rejected:
  "fst (process bytes c1 (Multipart cfg)) = None
   \<and> process bytes c2 (run bytes es (snd (process bytes c1 s)))
       = (Some alreadyConsumed, run bytes es (snd (process bytes c1 s)))
   \<and> consumed (step bytes e s) = (consumed s \<or> isProcess e)"
proof -
  have "consumed (run bytes es (snd (process bytes c1 s)))"
    by (rule run_consumed) (rule process_consumed)
  then have "process bytes c2 (run bytes es (snd (process bytes c1 s)))
       = (Some alreadyConsumed, run bytes es (snd (process bytes c1 s)))"
    by (simp add: process_def)
  moreover have "fst (process bytes c1 (Multipart cfg)) = None"
    by (simp add: process_def Multipart_def Let_def)
  ultimately show ?thesis
    by (simp add: step_consumed)
qed

theorem second_process_rejected_witness:
  "process (\<lambda>x. None) (Some \<lparr> limit = Some (LimitNumber 5), maxFields = Some 3 \<rparr>)
     (run (\<lambda>x. None) [DecoderField ''a'' ''b'', DecoderClose]
        (snd (process (\<lambda>x. None) None (Multipart \<lparr> limit = None, maxFields = None \<rparr>))))
   = (Some (Exception ''multipart stream has already been consumed'' 500
              ''E_RUNTIME_EXCEPTION''),
      run (\<lambda>x. None) [DecoderField ''a'' ''b'', DecoderClose]
        (snd (process (\<lambda>x. None) None (Multipart \<lparr> limit = None, maxFields = None \<rparr>))))
   \<and> promise (run (\<lambda>x. None) [DecoderField ''a'' ''b'', DecoderClose]
        (snd (process (\<lambda>x. None) None (Multipart \<lparr> limit = None, maxFields = None \<rparr>))))
     = Resolved"
proof -
  have "promise (run (\<lambda>x. None) [DecoderField ''a'' ''b'', DecoderClose]
        (snd (process (\<lambda>x. None) None (Multipart \<lparr> limit = None, maxFields = None \<rparr>))))
     = Resolved"
    by (simp add: step_def process_def processConfig_def assign_def Multipart_def Let_def
        onField_def handleField_def validateProcessedBytes_def fieldsAdd_def FormFields_add_def
        onClose_def checkClosed_def isClosed_def cleanup_def resolve_def)
  then show ?thesis
    using second_process_rejected
      [of "\<lambda>x. None" None "\<lparr> limit = None, maxFields = None \<rparr>"
          "Some \<lparr> limit = Some (LimitNumber 5), maxFields = Some 3 \<rparr>"
          "[DecoderField ''a'' ''b'', DecoderClose]"
          "Multipart \<lparr> limit = None, maxFields = None \<rparr>"]
    by (simp add: alreadyConsumed_def)
qed

subsection \<open>The byte guard\<close>

lemma validate_snd:
  "snd (validateProcessedBytes n s)
     = s\<lparr>processedBytes := processedBytes s + (if unlimited (upperLimit s) then 0 else int n)\<rparr>"
  by (simp add: validateProcessedBytes_def unlimited_def Let_def split: option.splits)

lemma validate_fst:
  "fst (validateProcessedBytes n s)
     = (case upperLimit s of
          None \<Rightarrow> None
        | Some u \<Rightarrow> if u \<noteq> 0 \<and> u < processedBytes s + int n then Some entityTooLarge else None)"
  by (simp add: validateProcessedBytes_def Let_def split: option.splits)

lemma validate_off:
  "unlimited (upperLimit s) \<Longrightarrow> validateProcessedBytes n s = (None, s)"
  by (auto simp add: validateProcessedBytes_def unlimited_def)

lemma onError_eq: "onError error s = s\<lparr>promise := reject (rejection error) (promise s)\<rparr>"
  by (simp add: onError_def rejection_def)

lemma abort_snd: "snd (abort error s) = (if form s = None then s else onError error s)"
  by (simp add: abort_def split: option.splits)

lemma afterHandler_frame [simp]:
  "upperLimit (snd (afterHandler out ph s)) = upperLimit s"
  "processedBytes (snd (afterHandler out ph s)) = processedBytes s"
  "promise (snd (afterHandler out ph s)) = promise s"
  "form (snd (afterHandler out ph s)) = form s"
  by (simp_all add: afterHandler_def Let_def split: option.splits)

lemma setRun_frame [simp]:
  "upperLimit (setRun pid r s) = upperLimit s"
  "processedBytes (setRun pid r s) = processedBytes s"
  "promise (setRun pid r s) = promise s"
  "form (setRun pid r s) = form s"
  by (simp_all add: setRun_def)

lemma checkClosed_frame [simp]:
  "upperLimit (checkClosed s) = upperLimit s"
  "processedBytes (checkClosed s) = processedBytes s"
  "form (checkClosed s) = form s"
  by (simp_all add: checkClosed_def cleanup_def split: sum.splits bool.splits)

lemma step_off_frame:
  assumes "off s"
  shows "off (step bytes e s)" "processedBytes (step bytes e s) = processedBytes s"
  using assms
  by (cases e; simp add: off_def step_def onFile_def process_def abort_snd onError_eq
        onField_def handleField_def fieldsAdd_def progress_def validate_off onClose_def
        handlePart_def handlePartSettled_def onPartHandled_def case_prod_unfold Let_def
        split: option.splits property.splits)+

lemma checkClosed_unrejected:
  "\<forall>x. promise s \<noteq> Rejected x \<Longrightarrow> promise (checkClosed s) \<noteq> Rejected y"
  by (simp add: checkClosed_def cleanup_def resolve_def split: sum.splits bool.splits)

lemma step_off_promise:
  assumes "off s" "\<not> isFailure e" "\<forall>x. promise s \<noteq> Rejected x"
  shows "promise (step bytes e s) \<noteq> Rejected y"
  using assms
  by (cases e; simp add: off_def step_def onFile_def process_def checkClosed_unrejected
        onField_def handleField_def fieldsAdd_def progress_def validate_off onClose_def
        handlePart_def handlePartSettled_def onPartHandled_def case_prod_unfold Let_def
        split: option.splits property.splits)

lemma run_off:
  "off s \<Longrightarrow> off (run bytes es s) \<and> processedBytes (run bytes es s) = processedBytes s"
  by (induction es arbitrary: s) (simp_all add: step_off_frame)

lemma run_off_promise:
  "off s \<Longrightarrow> \<forall>e \<in> set es. \<not> isFailure e \<Longrightarrow> \<forall>x. promise s \<noteq> Rejected x
     \<Longrightarrow> promise (run bytes es s) \<noteq> Rejected y"
proof (induction es arbitrary: s)
  case Nil
  then show ?case by simp
next
  case (Cons e es)
  have "off (step bytes e s)" using Cons.prems(1) by (rule step_off_frame)
  moreover have "\<forall>x. promise (step bytes e s) \<noteq> Rejected x"
    using Cons.prems by (simp add: step_off_promise)
  ultimately show ?case using Cons by simp
qed

text \<open>Changing the configuration and the limit of a started instance, while no limit
  is in force before or after, changes nothing else in what a callback does.\<close>

lemma step_commute:
  assumes "off s" "unlimited u"
  shows "step bytes e (s\<lparr>config := c, upperLimit := u\<rparr>) = (step bytes e s)\<lparr>config := c, upperLimit := u\<rparr>"
  using assms
  by (cases e; simp add: off_def step_def onFile_def process_def abort_def onError_def
        onField_def handleField_def fieldsAdd_def progress_def validate_off onClose_def
        checkClosed_def isClosed_def cleanup_def hasCallback_def setRun_def afterHandler_def
        addErrorListener_def
        handlePart_def handlePartSettled_def onPartHandled_def case_prod_unfold Let_def
        split: option.splits property.splits sum.splits bool.splits)


lemma run_commute:
  "off s \<Longrightarrow> unlimited u \<Longrightarrow>
     run bytes es (s\<lparr>config := c, upperLimit := u\<rparr>) = (run bytes es s)\<lparr>config := c, upperLimit := u\<rparr>"
proof (induction es arbitrary: s)
  case Nil
  then show ?case by simp
next
  case (Cons e es)
  have "off (step bytes e s)" using Cons.prems(1) by (rule step_off_frame)
  then show ?case using Cons by (simp add: step_commute)
qed

text \<open>
  Claim C9. Let \<open>process\<close> be called, on an instance not yet consumed, with a limit of
  \<open>0\<close> or with a size string for which the size parser gives \<open>null\<close>. Then, whatever
  callbacks follow: the processed-bytes counter keeps the value it had; the byte guard
  returns no error and changes nothing for any chunk length; if no error comes from
  outside (a decoder error or a call of \<open>abort\<close>), the outer promise is never rejected;
  and the run is the same, up to the stored configuration and limit, as the run of an
  instance for which no limit was configured at all.
\<close>

theorem zero_or_unparsable_limit_disables_guard:
  assumes "\<not> consumed s"
    and "limit cfg = Some (LimitNumber 0)
         \<or> (\<exists>str. limit cfg = Some (LimitString str) \<and> bytes str = None)"
  shows "processedBytes (run bytes es (started bytes (Some cfg) s)) = processedBytes s
       \<and> validateProcessedBytes n (run bytes es (started bytes (Some cfg) s))
           = (None, run bytes es (started bytes (Some cfg) s))
       \<and> ((\<forall>e \<in> set es. \<not> isFailure e)
            \<longrightarrow> (\<forall>x. promise (run bytes es (started bytes (Some cfg) s)) \<noteq> Rejected x))
       \<and> run bytes es (started bytes (Some cfg) s)
           = (run bytes es (started bytes (Some (withoutLimit cfg))
                              (s\<lparr>config := withoutLimit (config s)\<rparr>)))
               \<lparr>config := config (started bytes (Some cfg) s),
                upperLimit := upperLimit (started bytes (Some cfg) s)\<rparr>"
proof -
  let ?s1 = "started bytes (Some cfg) s"
  let ?s2 = "started bytes (Some (withoutLimit cfg)) (s\<lparr>config := withoutLimit (config s)\<rparr>)"
  have u1: "unlimited (upperLimit ?s1)"
    using assms
    by (auto simp: started_def process_def processConfig_def assign_def Let_def unlimited_def)
  have off1: "off ?s1"
    using u1 by (simp add: off_def started_def process_consumed)
  have off2: "off ?s2"
    using assms(1)
    by (simp add: off_def started_def process_def processConfig_def assign_def Let_def
        unlimited_def withoutLimit_def split: option.splits)
  have pb: "processedBytes ?s1 = processedBytes s"
    using assms(1) by (simp add: started_def process_def processConfig_def Let_def)
  have pr: "\<forall>x. promise ?s1 \<noteq> Rejected x"
    using assms(1) by (simp add: started_def process_def processConfig_def Let_def)
  have eq: "?s1 = ?s2\<lparr>config := config ?s1, upperLimit := upperLimit ?s1\<rparr>"
    using assms(1)
    by (simp add: started_def process_def processConfig_def assign_def Let_def withoutLimit_def
        split: option.splits)
  have a: "processedBytes (run bytes es ?s1) = processedBytes s"
    using run_off [OF off1] pb by simp
  have b: "validateProcessedBytes n (run bytes es ?s1) = (None, run bytes es ?s1)"
    using run_off [OF off1] by (simp add: validate_off off_def)
  have c: "(\<forall>e \<in> set es. \<not> isFailure e) \<longrightarrow> (\<forall>x. promise (run bytes es ?s1) \<noteq> Rejected x)"
    using run_off_promise [OF off1 _ pr] by blast
  have "run bytes es ?s1 = run bytes es (?s2\<lparr>config := config ?s1, upperLimit := upperLimit ?s1\<rparr>)"
    using eq by simp
  also have "\<dots> = (run bytes es ?s2)\<lparr>config := config ?s1, upperLimit := upperLimit ?s1\<rparr>"
    using off2 u1 by (rule run_commute)
  finally show ?thesis using a b c by simp
qed


theorem zero_or_unparsable_limit_disables_guard_witness:
  "processedBytes
     (run (\<lambda>x. None) [DecoderField ''note'' ''hello'', DecoderField ''more'' ''worldworld'']
        (started (\<lambda>x. None) (Some \<lparr> limit = Some (LimitString ''lots''), maxFields = None \<rparr>)
           (Multipart \<lparr> limit = Some (LimitNumber 3), maxFields = None \<rparr>))) = 0
   \<and> validateProcessedBytes 7
     (run (\<lambda>x. None) [DecoderField ''note'' ''hello'', DecoderField ''more'' ''worldworld'']
        (started (\<lambda>x. None) (Some \<lparr> limit = Some (LimitString ''lots''), maxFields = None \<rparr>)
           (Multipart \<lparr> limit = Some (LimitNumber 3), maxFields = None \<rparr>)))
     = (None,
        run (\<lambda>x. None) [DecoderField ''note'' ''hello'', DecoderField ''more'' ''worldworld'']
        (started (\<lambda>x. None) (Some \<lparr> limit = Some (LimitString ''lots''), maxFields = None \<rparr>)
           (Multipart \<lparr> limit = Some (LimitNumber 3), maxFields = None \<rparr>)))"
proof -
  have pre: "\<not> consumed (Multipart \<lparr> limit = Some (LimitNumber 3), maxFields = None \<rparr>)"
    by (simp add: Multipart_def)
  have lim: "limit \<lparr> limit = Some (LimitString ''lots''), maxFields = None \<rparr> = Some (LimitNumber 0)
      \<or> (\<exists>str. limit \<lparr> limit = Some (LimitString ''lots''), maxFields = None \<rparr>
                  = Some (LimitString str) \<and> (\<lambda>x. None) str = (None :: int option))"
    by simp
  have zero: "processedBytes (Multipart \<lparr> limit = Some (LimitNumber 3), maxFields = None \<rparr>) = 0"
    by (simp add: Multipart_def)
  note t = zero_or_unparsable_limit_disables_guard [OF pre lim]
  show ?thesis
    using t [THEN conjunct1] t [THEN conjunct2, THEN conjunct1] zero by (simp del: run.simps)
qed

subsection \<open>The progress callback\<close>

lemma form_frame [simp]:
  "form (onError e s) = form s"
  "form (snd (abort e s)) = form s"
  "form (handlePart pid p s) = form s"
  "form (handlePartSettled pid out s) = form s"
  "form (snd (progress pid line s)) = form s"
  "form (snd (onField add k v s)) = form s"
  "form (onPartHandled pid s) = form s"
  by (simp_all add: onError_def abort_def handlePart_def handlePartSettled_def progress_def
      onField_def handleField_def onPartHandled_def case_prod_unfold Let_def
      split: option.splits property.splits sum.splits)

lemma step_form: "form s \<noteq> None \<Longrightarrow> form (step bytes e s) \<noteq> None"
  by (cases e; simp add: step_def onFile_def process_def processConfig_def onClose_def Let_def
        split: option.splits)

lemma step_no_parts: "form s = None \<Longrightarrow> parts s = [] \<Longrightarrow> parts (step bytes e s) = []"
  by (cases e; simp add: step_def onFile_def process_def processConfig_def abort_def
        progress_def handlePartSettled_def onPartHandled_def Let_def)

lemma step_wired: "wired s \<Longrightarrow> wired (step bytes e s)"
  unfolding wired_def using step_form step_no_parts by blast

lemma run_wired: "wired s \<Longrightarrow> wired (run bytes es s)"
  by (induction es arbitrary: s) (simp_all add: step_wired)

lemma new_wired: "wired (Multipart cfg)"
  by (simp add: wired_def Multipart_def)

lemma fst_validate_cases:
  "fst (validateProcessedBytes n s) = None \<or> fst (validateProcessedBytes n s) = Some entityTooLarge"
  by (simp add: validate_fst split: option.splits)

lemma progress_exceeded:
  assumes "hasCallback pid s" "form s \<noteq> None" "listeningOn pid s"
    and "fst (validateProcessedBytes (length line) s) = Some error"
  shows "fst (progress pid line s) = None"
    "emittedOn pid (snd (progress pid line s)) = emittedOn pid s @ [error]"
    "promise (snd (progress pid line s)) = reject error (promise s)"
    "map_option ph_chunks (trackerOf pid (snd (progress pid line s)))
       = map_option (\<lambda>ph. ph_chunks ph @ [(line, length line)]) (trackerOf pid s)"
proof -
  have e: "error = entityTooLarge"
    using assms(4) fst_validate_cases [of "length line" s] by auto
  obtain r where r: "map_of (parts s) pid = Some r" "run_listening r"
    using assms(1,3) by (auto simp: hasCallback_def listeningOn_def split: option.splits)
  obtain s1 where v: "validateProcessedBytes (length line) s = (Some error, s1)"
    using assms(4) by (cases "validateProcessedBytes (length line) s") auto
  have s1: "s1 = snd (validateProcessedBytes (length line) s)" using v by simp
  have f: "form s1 \<noteq> None" "parts s1 = parts s" "promise s1 = promise s"
    using assms(2) s1 by simp_all
  show "fst (progress pid line s) = None"
    using assms(1) r v f by (auto simp: progress_def Let_def abort_def setRun_def)
  show "emittedOn pid (snd (progress pid line s)) = emittedOn pid s @ [error]"
    using assms(1) r v f
    by (auto simp: progress_def Let_def abort_def setRun_def emittedOn_def update_conv'
        emitOnPart_def trackProgress_def onError_def)
  show "promise (snd (progress pid line s)) = reject error (promise s)"
    using assms(1) r v f e
    by (auto simp: progress_def Let_def abort_def setRun_def onError_def entityTooLarge_def)
  show "map_option ph_chunks (trackerOf pid (snd (progress pid line s)))
       = map_option (\<lambda>ph. ph_chunks ph @ [(line, length line)]) (trackerOf pid s)"
    using assms(1) r v f
    by (auto simp: progress_def Let_def abort_def setRun_def trackerOf_def update_conv'
        emitOnPart_def trackProgress_def onError_def reportProgress_def option.map_comp comp_def
        split: option.splits)
qed

text \<open>On a part whose stream has no listener for \<open>error\<close>, a chunk that passes the limit
  makes the callback throw the size-exceeded exception: the exception was handed to
  \<open>emit\<close>, but \<open>abort\<close> and the report to the tracker are not reached, so the outer
  promise and the tracker are as before.\<close>

lemma progress_unheard:
  assumes "hasCallback pid s" "\<not> listeningOn pid s"
    and "fst (validateProcessedBytes (length line) s) = Some error"
  shows "fst (progress pid line s) = Some error"
    "emittedOn pid (snd (progress pid line s)) = emittedOn pid s @ [error]"
    "promise (snd (progress pid line s)) = promise s"
    "trackerOf pid (snd (progress pid line s)) = trackerOf pid s"
proof -
  obtain r where r: "map_of (parts s) pid = Some r" "\<not> run_listening r"
    using assms(1,2) by (auto simp: hasCallback_def listeningOn_def split: option.splits)
  obtain s1 where v: "validateProcessedBytes (length line) s = (Some error, s1)"
    using assms(3) by (cases "validateProcessedBytes (length line) s") auto
  have s1: "s1 = snd (validateProcessedBytes (length line) s)" using v by simp
  have f: "parts s1 = parts s" "promise s1 = promise s" using s1 by simp_all
  show "fst (progress pid line s) = Some error"
    using assms(1) r v by (simp add: progress_def Let_def)
  show "emittedOn pid (snd (progress pid line s)) = emittedOn pid s @ [error]"
    using assms(1) r v f
    by (simp add: progress_def Let_def setRun_def emittedOn_def update_conv' emitOnPart_def)
  show "promise (snd (progress pid line s)) = promise s"
    using assms(1) r v f by (simp add: progress_def Let_def setRun_def)
  show "trackerOf pid (snd (progress pid line s)) = trackerOf pid s"
    using assms(1) r v f
    by (simp add: progress_def Let_def setRun_def trackerOf_def update_conv' emitOnPart_def)
qed

lemma progress_within:
  assumes "hasCallback pid s" "fst (validateProcessedBytes (length line) s) = None"
  shows "emittedOn pid (snd (progress pid line s)) = emittedOn pid s"
    "promise (snd (progress pid line s)) = promise s"
proof -
  obtain r where r: "map_of (parts s) pid = Some r"
    using assms(1) by (auto simp: hasCallback_def split: option.splits)
  obtain s1 where v: "validateProcessedBytes (length line) s = (None, s1)"
    using assms(2) by (cases "validateProcessedBytes (length line) s") auto
  have s1: "s1 = snd (validateProcessedBytes (length line) s)" using v by simp
  have f: "parts s1 = parts s" "promise s1 = promise s" using s1 by simp_all
  show "emittedOn pid (snd (progress pid line s)) = emittedOn pid s"
    using assms(1) r v f
    by (auto simp: progress_def Let_def setRun_def emittedOn_def update_conv' trackProgress_def)
  show "promise (snd (progress pid line s)) = promise s"
    using assms(1) r v f by (auto simp: progress_def Let_def setRun_def)
qed

text \<open>
  Claim C5. The claim is what the comments in the progress callback say the code does
  on a chunk that passes the limit (short-circuit the current part, short-circuit the
  entire stream), and it is what the code does when the part's stream has a listener
  for \<open>error\<close> (last conjunct). On a part whose stream has none, the code does not:
  with a limit of four bytes, a handler registered for \<open>avatar\<close> and the part
  \<open>avatar\<close> handed to it, the chunk \<open>hello\<close> makes \<open>part.emit('error', error)\<close> throw the
  size-exceeded exception out of the callback; \<open>this.abort(error)\<close> is not reached, the
  outer promise stays unsettled, and the chunk is not reported to the tracker.
\<close>

theorem chunk_over_limit_without_listener:
  "fst (progress 0 ''hello''
      (run (\<lambda>x. None)
         [OnFile ''avatar'' None 1,
          Process (Some \<lparr> limit = Some (LimitNumber 4), maxFields = None \<rparr>),
          DecoderPart 0 ''avatar'' ''a.png'']
         (Multipart \<lparr> limit = None, maxFields = None \<rparr>)))
     = Some (Exception ''request entity too large'' 413 ''E_REQUEST_ENTITY_TOO_LARGE'')
   \<and> promise
     (run (\<lambda>x. None)
         [OnFile ''avatar'' None 1,
          Process (Some \<lparr> limit = Some (LimitNumber 4), maxFields = None \<rparr>),
          DecoderPart 0 ''avatar'' ''a.png'', HandlerProgress 0 ''hello'']
         (Multipart \<lparr> limit = None, maxFields = None \<rparr>))
     = Unsettled
   \<and> emittedOn 0
     (run (\<lambda>x. None)
         [OnFile ''avatar'' None 1,
          Process (Some \<lparr> limit = Some (LimitNumber 4), maxFields = None \<rparr>),
          DecoderPart 0 ''avatar'' ''a.png'', HandlerProgress 0 ''hello'']
         (Multipart \<lparr> limit = None, maxFields = None \<rparr>))
     = [Exception ''request entity too large'' 413 ''E_REQUEST_ENTITY_TOO_LARGE'']
   \<and> map_option ph_chunks (trackerOf 0
     (run (\<lambda>x. None)
         [OnFile ''avatar'' None 1,
          Process (Some \<lparr> limit = Some (LimitNumber 4), maxFields = None \<rparr>),
          DecoderPart 0 ''avatar'' ''a.png'', HandlerProgress 0 ''hello'']
         (Multipart \<lparr> limit = None, maxFields = None \<rparr>)))
     = Some []
   \<and> promise
     (run (\<lambda>x. None)
         [OnFile ''avatar'' None 1,
          Process (Some \<lparr> limit = Some (LimitNumber 4), maxFields = None \<rparr>),
          DecoderPart 0 ''avatar'' ''a.png'', ErrorListenerAdded 0,
          HandlerProgress 0 ''hello'']
         (Multipart \<lparr> limit = None, maxFields = None \<rparr>))
     = Rejected (Exception ''request entity too large'' 413 ''E_REQUEST_ENTITY_TOO_LARGE'')"
  by code_simp

subsection \<open>A failing handler\<close>

lemma getFile_reportError:
  "getFile (reportError error ph) = Some f \<Longrightarrow> error \<in> set (errors f) \<and> fstatus f = Failed"
  by (auto simp: getFile_def reportError_def split: if_splits)

text \<open>
  Claim C6. Let the handler of a part that is awaiting it throw or reject with an
  error. The error is reported to the part's tracker; the file the tracker then gives,
  if any, is added to the file accumulator under its field name (and, the tracker being
  as modelled from the specification, that file carries the error and the failed
  status); the pending-handler counter goes down by one; and the outer promise, the
  decoder, the field accumulator and every other part are as before.
\<close>

theorem handler_failure_is_local:
  assumes "awaiting pid s" and "trackerOf pid s = Some ph"
  shows "trackerOf pid (handlePartSettled pid (Threw error) s) = Some (reportError error ph)
       \<and> files (handlePartSettled pid (Threw error) s) = addFile (reportError error ph) (files s)
       \<and> (\<forall>f. getFile (reportError error ph) = Some f \<longrightarrow> error \<in> set (errors f) \<and> fstatus f = Failed)
       \<and> pendingHandlers (handlePartSettled pid (Threw error) s) = pendingHandlers s - 1
       \<and> promise (handlePartSettled pid (Threw error) s) = promise s
       \<and> form (handlePartSettled pid (Threw error) s) = form s
       \<and> fields' (handlePartSettled pid (Threw error) s) = fields' s
       \<and> (\<forall>q. q \<noteq> pid \<longrightarrow> map_of (parts (handlePartSettled pid (Threw error) s)) q = map_of (parts s) q)"
proof -
  obtain r where r: "map_of (parts s) pid = Some r" "run_phase r = Handling" "run_tracker r = Some ph"
    using assms by (auto simp: awaiting_def trackerOf_def split: option.splits)
  show ?thesis
    using r getFile_reportError
    by (auto simp: handlePartSettled_def afterHandler_def Let_def setRun_def trackerOf_def
        addFile_def update_conv' split: option.splits)
qed

theorem handler_failure_is_local_witness:
  "files (handlePartSettled 0 (Threw (Error ''disk full''))
      (run (\<lambda>x. None)
         [OnFile ''avatar'' None 1, Process None, DecoderPart 0 ''avatar'' ''a.png'',
          HandlerProgress 0 ''hello'']
         (Multipart \<lparr> limit = None, maxFields = None \<rparr>)))
     = [(''avatar'', [\<lparr> fieldName = ''avatar'', clientName = ''a.png'', bytesSeen = 5,
                          fstatus = Failed, errors = [Error ''disk full''] \<rparr>])]
   \<and> pendingHandlers (handlePartSettled 0 (Threw (Error ''disk full''))
      (run (\<lambda>x. None)
         [OnFile ''avatar'' None 1, Process None, DecoderPart 0 ''avatar'' ''a.png'',
          HandlerProgress 0 ''hello'']
         (Multipart \<lparr> limit = None, maxFields = None \<rparr>))) = 0
   \<and> promise (handlePartSettled 0 (Threw (Error ''disk full''))
      (run (\<lambda>x. None)
         [OnFile ''avatar'' None 1, Process None, DecoderPart 0 ''avatar'' ''a.png'',
          HandlerProgress 0 ''hello'']
         (Multipart \<lparr> limit = None, maxFields = None \<rparr>))) = Unsettled"
proof -
  let ?s = "run (\<lambda>x. None)
         [OnFile ''avatar'' None 1, Process None, DecoderPart 0 ''avatar'' ''a.png'',
          HandlerProgress 0 ''hello'']
         (Multipart \<lparr> limit = None, maxFields = None \<rparr>)"
  let ?ph = "\<lparr> ph_fieldName = ''avatar'', ph_clientName = ''a.png'', ph_options = None,
               ph_chunks = [(''hello'', 5)], ph_success = None, ph_errors = [] \<rparr>"
  have a: "awaiting 0 ?s" by code_simp
  have t: "trackerOf 0 ?s = Some ?ph" by code_simp
  have f: "files ?s = []" by code_simp
  have p: "pendingHandlers ?s = 1" by code_simp
  have q: "promise ?s = Unsettled" by code_simp
  have g: "addFile (reportError (Error ''disk full'') ?ph) []
     = [(''avatar'', [\<lparr> fieldName = ''avatar'', clientName = ''a.png'', bytesSeen = 5,
                          fstatus = Failed, errors = [Error ''disk full''] \<rparr>])]"
    by code_simp
  show ?thesis
    using handler_failure_is_local [OF a t, of "Error ''disk full''"] f p q g
    by (simp del: run.simps)
qed

subsection \<open>A field arrives\<close>

lemma FormFields_add_values:
  "valuesOf (FormFields_add key v acc) k = (if k = key then valuesOf acc key @ [v] else valuesOf acc k)"
  by (auto simp: FormFields_add_def valuesOf_def update_conv' map_add_def split: option.splits)

lemma FormFields_add_keys:
  "map fst (FormFields_add key v acc) = (if key \<in> fst ` set acc then map fst acc else map fst acc @ [key])"
  by (auto simp: FormFields_add_def map_of_eq_None_iff AList.update_keys split: option.splits)

lemma abort_started: "form s \<noteq> None \<Longrightarrow> abort error s = (None, s\<lparr>promise := reject (rejection error) (promise s)\<rparr>)"
  by (auto simp: abort_def onError_eq)

text \<open>
  Claim C8. When a field arrives (the listener exists once the decoder does): a field
  with an empty key changes nothing. Otherwise the byte guard is run on the length of
  the value. If the guard returns an error, the listener does what \<open>abort\<close> does with
  it: the outer promise is rejected with the size-exceeded exception and the field
  accumulator is as before. If the guard passes and the recording returns, the new
  accumulator is stored, and with the accumulator as modelled from the specification
  the value is the last of the values under its key, the other keys keep theirs, and a
  new key comes last. If the recording throws, the listener does what \<open>abort\<close> does
  with the thrown value, and the accumulator is as before.
\<close>

theorem field_arrival:
  assumes "form s \<noteq> None"
  shows "onField add [] val s = (None, s)
       \<and> (key \<noteq> [] \<longrightarrow>
            (case validateProcessedBytes (length val) s of
               (Some error, s1) \<Rightarrow>
                  error = entityTooLarge
                \<and> onField add key val s = abort error s1
                \<and> fst (onField add key val s) = None
                \<and> fields' (snd (onField add key val s)) = fields' s
                \<and> promise (snd (onField add key val s)) = reject error (promise s)
             | (None, s1) \<Rightarrow>
                 (case add key val (fields' s) of
                    Inr acc \<Rightarrow> onField add key val s = (None, s1\<lparr>fields' := acc\<rparr>)
                  | Inl thrown \<Rightarrow>
                       onField add key val s = abort thrown s1
                     \<and> fst (onField add key val s) = None
                     \<and> fields' (snd (onField add key val s)) = fields' s
                     \<and> promise (snd (onField add key val s))
                         = reject (rejection thrown) (promise s))))
       \<and> fieldsAdd key val acc0 = Inr (FormFields_add key val acc0)
       \<and> valuesOf (FormFields_add key val acc0) key = valuesOf acc0 key @ [val]
       \<and> (\<forall>k. k \<noteq> key \<longrightarrow> valuesOf (FormFields_add key val acc0) k = valuesOf acc0 k)
       \<and> map fst (FormFields_add key val acc0)
           = (if key \<in> fst ` set acc0 then map fst acc0 else map fst acc0 @ [key])"
proof -
  have v: "snd (validateProcessedBytes (length val) s)
             = s\<lparr>processedBytes := processedBytes (snd (validateProcessedBytes (length val) s))\<rparr>"
    by (simp add: validate_snd)
  have e: "fst (validateProcessedBytes (length val) s) = Some error \<Longrightarrow> error = entityTooLarge" for error
    using fst_validate_cases [of "length val" s] by auto
  have r: "rejection entityTooLarge = entityTooLarge"
    by (simp add: rejection_def entityTooLarge_def)
  have "key \<noteq> [] \<longrightarrow>
            (case validateProcessedBytes (length val) s of
               (Some error, s1) \<Rightarrow>
                  error = entityTooLarge
                \<and> onField add key val s = abort error s1
                \<and> fst (onField add key val s) = None
                \<and> fields' (snd (onField add key val s)) = fields' s
                \<and> promise (snd (onField add key val s)) = reject error (promise s)
             | (None, s1) \<Rightarrow>
                 (case add key val (fields' s) of
                    Inr acc \<Rightarrow> onField add key val s = (None, s1\<lparr>fields' := acc\<rparr>)
                  | Inl thrown \<Rightarrow>
                       onField add key val s = abort thrown s1
                     \<and> fst (onField add key val s) = None
                     \<and> fields' (snd (onField add key val s)) = fields' s
                     \<and> promise (snd (onField add key val s))
                         = reject (rejection thrown) (promise s)))"
  proof (cases "validateProcessedBytes (length val) s")
    case (Pair a s1)
    have s1: "s1 = snd (validateProcessedBytes (length val) s)" using Pair by simp
    have f: "form s1 \<noteq> None" "fields' s1 = fields' s" "promise s1 = promise s"
      using assms s1 by (simp_all add: validate_snd)
    show ?thesis
    proof (cases a)
      case None
      then show ?thesis using Pair f
        by (auto simp: onField_def handleField_def abort_started split: sum.splits)
    next
      case (Some error)
      then have "error = entityTooLarge" using e Pair by simp
      then show ?thesis using Pair Some f r
        by (auto simp: onField_def handleField_def abort_started)
    qed
  qed
  then show ?thesis
    by (simp add: onField_def handleField_def fieldsAdd_def FormFields_add_values
        FormFields_add_keys)
qed


theorem field_arrival_witness:
  "fields' (snd (onField fieldsAdd ''note'' ''hello'' limited10)) = [(''note'', [''hello''])]
   \<and> promise (snd (onField fieldsAdd ''note'' ''hello'' limited10)) = Unsettled
   \<and> fields' (snd (onField fieldsAdd ''note2'' ''worldworld1'' limited10)) = []
   \<and> promise (snd (onField fieldsAdd ''note2'' ''worldworld1'' limited10))
       = Rejected (Exception ''request entity too large'' 413 ''E_REQUEST_ENTITY_TOO_LARGE'')
   \<and> fields' (snd (onField (\<lambda>k v a. Inl (Error ''boom'')) ''note'' ''hello'' limited10)) = []
   \<and> promise (snd (onField (\<lambda>k v a. Inl (Error ''boom'')) ''note'' ''hello'' limited10))
       = Rejected (Error ''boom'')"
proof -
  have f: "form limited10 \<noteq> None"
    by (simp add: limited10_def started_def process_def processConfig_def Multipart_def Let_def)
  have p: "promise limited10 = Unsettled" "fields' limited10 = []"
    by (simp_all add: limited10_def started_def process_def processConfig_def Multipart_def Let_def)
  have v: "validateProcessedBytes (length ''hello'') limited10
             = (None, limited10\<lparr>processedBytes := 5\<rparr>)"
          "validateProcessedBytes (length ''worldworld1'') limited10
             = (Some entityTooLarge, limited10\<lparr>processedBytes := 11\<rparr>)"
    by (simp_all add: limited10_def started_def process_def processConfig_def Multipart_def
        assign_def Let_def validateProcessedBytes_def)
  show ?thesis
    using field_arrival [OF f, where add = fieldsAdd and key = "''note''" and val = "''hello''"]
      field_arrival [OF f, where add = fieldsAdd and key = "''note2''" and val = "''worldworld1''"]
      field_arrival [OF f, where add = "\<lambda>k v a. Inl (Error ''boom'')" and key = "''note''"
                              and val = "''hello''"]
      p v f
    by (simp add: fieldsAdd_def FormFields_add_def reject_def rejection_def entityTooLarge_def
        abort_started)
qed

subsection \<open>Decoder errors\<close>

text \<open>
  Claim C4. The \<open>error\<close> listener compares the message of the decoder's error with the
  literal \<open>maxFields 1 exceeded.\<close>, the decoder's message for a cap of one field. With
  \<open>maxFields = 2\<close> the decoder's message for the same condition is
  \<open>maxFields 2 exceeded.\<close>: the listener does not recognise it and rejects the outer
  promise with the decoder's error as it is, not with the dedicated exception. With
  \<open>maxFields = 1\<close> the dedicated exception is what rejects the promise.
\<close>

theorem max_fields_two_not_translated:
  "promise (run (\<lambda>x. None)
      [Process (Some \<lparr> limit = None, maxFields = Some 2 \<rparr>),
       DecoderField ''a'' ''1'', DecoderField ''b'' ''2'',
       DecoderError (Error ''maxFields 2 exceeded.'')]
      (Multipart \<lparr> limit = None, maxFields = None \<rparr>))
     = Rejected (Error ''maxFields 2 exceeded.'')
   \<and> promise (run (\<lambda>x. None)
      [Process (Some \<lparr> limit = None, maxFields = Some 1 \<rparr>),
       DecoderField ''a'' ''1'',
       DecoderError (Error ''maxFields 1 exceeded.'')]
      (Multipart \<lparr> limit = None, maxFields = None \<rparr>))
     = Rejected (Exception ''Max fields limit exceeded'' 413 ''E_REQUEST_ENTITY_TOO_LARGE'')"
  by (simp add: step_def process_def processConfig_def assign_def Multipart_def Let_def
      onField_def handleField_def validateProcessedBytes_def fieldsAdd_def FormFields_add_def
      onError_def reject_def)

subsection \<open>Handler resolution\<close>

lemma getHandlerName_skip: "noMatchWithin p t \<Longrightarrow> getHandlerName (p @ t) = p @ getHandlerName t"
  by (induction p) simp_all

lemma matchIndex_index:
  "list_all digit ds \<Longrightarrow> matchIndex (''['' @ ds @ '']'' @ r) = Some r"
proof -
  assume d: "list_all digit ds"
  have "\<not> digit CHR '']''" by (simp add: digit_def)
  then have "dropWhile digit (ds @ CHR '']'' # r) = CHR '']'' # r"
    using d by (simp add: dropWhile_append3 list_all_iff)
  then show ?thesis by (simp add: matchIndex_def)
qed

lemma noMatchWithin_no_bracket: "CHR ''['' \<notin> set p \<Longrightarrow> noMatchWithin p t"
  by (induction p) (auto simp: matchIndex_def)

lemma proto_key: "''__proto__'' \<in> set objectPrototypeKeys"
  by (simp add: objectPrototypeKeys_def)

lemma star_key: "''*'' \<notin> set objectPrototypeKeys"
  by (simp add: objectPrototypeKeys_def)

lemma binding_keys:
  "''handler'' \<notin> set objectPrototypeKeys" "''options'' \<notin> set objectPrototypeKeys"
  by (simp_all add: objectPrototypeKeys_def)

lemma getProp_registered:
  "getProp hs k = (case registered hs k of
                     Some b \<Rightarrow> Bound b
                   | None \<Rightarrow> if inheritedName hs k then Foreign else Undefined)"
  by (auto simp: getProp_def registered_def inheritedName_def proto_key binding_keys
      split: option.splits)

lemma star_not_inherited: "\<not> inheritedName hs ''*''"
  by (simp add: inheritedName_def star_key split: option.splits)

lemma registered_onFile:
  "map_of (own (handlers s)) ''__proto__'' = None \<Longrightarrow>
     registered (handlers (onFile k opts h s)) k'
       = (if k' = k then Some \<lparr> handler = h, options = opts \<rparr> else registered (handlers s) k')"
  by (auto simp: registered_def onFile_def setProp_def update_conv' split: option.splits)


lemma resolveHandler_registered:
  assumes "\<not> inheritedName hs (getHandlerName partName)"
  shows "resolveHandler hs partName
           = (case registered hs (getHandlerName partName) of
                Some b \<Rightarrow> Bound b
              | None \<Rightarrow> (case registered hs ''*'' of Some b \<Rightarrow> Bound b | None \<Rightarrow> Undefined))"
  using assms star_not_inherited [of hs]
  by (simp add: resolveHandler_def getProp_registered split: option.splits)

text \<open>
  Claim C3, as amended. For a part with a non-empty name, the name is normalised by
  removing the leftmost occurrence of \<open>[\<close>, digits, \<open>]\<close>, wherever it stands (a name
  without one is unchanged; in \<open>docs[2]\<close> it is the trailing suffix). Unless the
  normalised name is one the \<open>handlers\<close> object inherits, the handler invoked is the
  one registered for the normalised name, else the one registered for \<open>*\<close>, and if
  there is neither the part is resumed and no handler is invoked. What \<open>onFile\<close>
  registers for a key replaces what was registered for it. A part with an empty name
  is resumed without a lookup.
\<close>

theorem handler_resolution:
  assumes "name p \<noteq> []"
    and "\<not> inheritedName (handlers s) (getHandlerName (name p))"
  shows "handlePart pid p s
           = (case registered (handlers s) (getHandlerName (name p)) of
                Some b \<Rightarrow> invokeHandler pid p b s
              | None \<Rightarrow>
                  (case registered (handlers s) ''*'' of
                     Some b \<Rightarrow> invokeHandler pid p b s
                   | None \<Rightarrow> resumePart pid p s))
       \<and> (list_all digit ds \<and> noMatchWithin pre (''['' @ ds @ '']'' @ post)
            \<longrightarrow> getHandlerName (pre @ ''['' @ ds @ '']'' @ post) = pre @ post)
       \<and> (CHR ''['' \<notin> set pre \<longrightarrow> noMatchWithin pre post)
       \<and> (noMatchWithin nm [] \<longrightarrow> getHandlerName nm = nm)
       \<and> (map_of (own (handlers s)) ''__proto__'' = None \<longrightarrow>
            registered (handlers (onFile k opts h s)) k'
              = (if k' = k then Some \<lparr> handler = h, options = opts \<rparr>
                 else registered (handlers s) k'))
       \<and> (name q = [] \<longrightarrow> handlePart pid q s = resumePart pid q s)"
proof -
  have a: "handlePart pid p s
           = (case registered (handlers s) (getHandlerName (name p)) of
                Some b \<Rightarrow> invokeHandler pid p b s
              | None \<Rightarrow>
                  (case registered (handlers s) ''*'' of
                     Some b \<Rightarrow> invokeHandler pid p b s
                   | None \<Rightarrow> resumePart pid p s))"
    using assms
    by (simp add: handlePart_def resolveHandler_registered invokeHandler_def resumePart_def
        split: option.splits)
  have b: "list_all digit ds \<and> noMatchWithin pre (''['' @ ds @ '']'' @ post)
            \<longrightarrow> getHandlerName (pre @ ''['' @ ds @ '']'' @ post) = pre @ post"
  proof
    assume h: "list_all digit ds \<and> noMatchWithin pre (''['' @ ds @ '']'' @ post)"
    then have "getHandlerName (pre @ (''['' @ ds @ '']'' @ post))
                 = pre @ getHandlerName (''['' @ ds @ '']'' @ post)"
      by (simp add: getHandlerName_skip)
    moreover have "getHandlerName (''['' @ ds @ '']'' @ post) = post"
      using h matchIndex_index [of ds post] by simp
    ultimately show "getHandlerName (pre @ ''['' @ ds @ '']'' @ post) = pre @ post"
      by simp
  qed
  have c: "noMatchWithin nm [] \<longrightarrow> getHandlerName nm = nm"
    using getHandlerName_skip [of nm "[]"] by simp
  show ?thesis
  proof (intro conjI impI)
    show "handlePart pid p s
           = (case registered (handlers s) (getHandlerName (name p)) of
                Some b \<Rightarrow> invokeHandler pid p b s
              | None \<Rightarrow>
                  (case registered (handlers s) ''*'' of
                     Some b \<Rightarrow> invokeHandler pid p b s
                   | None \<Rightarrow> resumePart pid p s))"
      by (rule a)
    show "getHandlerName (pre @ ''['' @ ds @ '']'' @ post) = pre @ post"
      if "list_all digit ds \<and> noMatchWithin pre (''['' @ ds @ '']'' @ post)"
      using b that by simp
    show "noMatchWithin pre post" if "CHR ''['' \<notin> set pre"
      using that by (rule noMatchWithin_no_bracket)
    show "getHandlerName nm = nm" if "noMatchWithin nm []"
      using c that by simp
    show "registered (handlers (onFile k opts h s)) k'
              = (if k' = k then Some \<lparr> handler = h, options = opts \<rparr>
                 else registered (handlers s) k')"
      if "map_of (own (handlers s)) ''__proto__'' = None"
      using that by (rule registered_onFile)
    show "handlePart pid q s = resumePart pid q s" if "name q = []"
      using that by (simp add: handlePart_def resumePart_def)
  qed
qed

theorem handler_resolution_witness:
  "handlePart 0 \<lparr> name = ''docs[2]'', filename = ''a.pdf'', resumed = False, emitted = [] \<rparr>
       (onFile ''docs'' None 7 (Multipart \<lparr> limit = None, maxFields = None \<rparr>))
     = invokeHandler 0 \<lparr> name = ''docs[2]'', filename = ''a.pdf'', resumed = False, emitted = [] \<rparr>
         \<lparr> handler = 7, options = None \<rparr>
         (onFile ''docs'' None 7 (Multipart \<lparr> limit = None, maxFields = None \<rparr>))
   \<and> getHandlerName (''docs'' @ ''['' @ ''2'' @ '']'' @ []) = ''docs''"
proof -
  let ?p = "\<lparr> name = ''docs[2]'', filename = ''a.pdf'', resumed = False, emitted = [] \<rparr>"
  let ?s = "onFile ''docs'' None 7 (Multipart \<lparr> limit = None, maxFields = None \<rparr>)"
  have n: "name ?p \<noteq> []" by simp
  have g: "getHandlerName (name ?p) = ''docs''" by (simp add: matchIndex_def digit_def)
  have i: "\<not> inheritedName (handlers ?s) (getHandlerName (name ?p))"
    unfolding g
    by (simp add: inheritedName_def objectPrototypeKeys_def onFile_def Multipart_def setProp_def)
  have r: "registered (handlers ?s) ''docs'' = Some \<lparr> handler = 7, options = None \<rparr>"
    by (simp add: registered_def onFile_def Multipart_def setProp_def)
  have d: "list_all digit ''2''" "noMatchWithin ''docs'' (''['' @ ''2'' @ '']'' @ [])"
    by (simp_all add: digit_def matchIndex_def)
  note t = handler_resolution [OF n i, where pid = 0 and ds = "''2''" and pre = "''docs''"
                                         and post = "[]"]
  show ?thesis
    using t [THEN conjunct1] t [THEN conjunct2, THEN conjunct1] g r d
    by (simp del: getHandlerName.simps)
qed

text \<open>
  Claim C3 as stated fails: the name \<open>a[0]b\<close> has no trailing index suffix, so as
  stated it is its own normal form, for which nothing is registered, and nothing is
  registered for \<open>*\<close>; yet the code resolves it to the handler registered for \<open>ab\<close>.
  And a part with the empty name is resumed although a handler is registered for the
  empty name.
\<close>

theorem unanchored_index_counterexample:
  "spec_stripTrailingIndex ''a[0]b'' = ''a[0]b''
   \<and> getHandlerName ''a[0]b'' = ''ab''
   \<and> registered (handlers (onFile ''ab'' None 7 (Multipart \<lparr> limit = None, maxFields = None \<rparr>)))
        ''a[0]b'' = None
   \<and> registered (handlers (onFile ''ab'' None 7 (Multipart \<lparr> limit = None, maxFields = None \<rparr>)))
        ''*'' = None
   \<and> resolveHandler (handlers (onFile ''ab'' None 7 (Multipart \<lparr> limit = None, maxFields = None \<rparr>)))
        ''a[0]b'' = Bound \<lparr> handler = 7, options = None \<rparr>
   \<and> registered (handlers (onFile [] None 7 (Multipart \<lparr> limit = None, maxFields = None \<rparr>)))
        (spec_stripTrailingIndex []) = Some \<lparr> handler = 7, options = None \<rparr>
   \<and> handlePart 0 \<lparr> name = [], filename = ''a.txt'', resumed = False, emitted = [] \<rparr>
        (onFile [] None 7 (Multipart \<lparr> limit = None, maxFields = None \<rparr>))
       = resumePart 0 \<lparr> name = [], filename = ''a.txt'', resumed = False, emitted = [] \<rparr>
           (onFile [] None 7 (Multipart \<lparr> limit = None, maxFields = None \<rparr>))"
  by code_simp

subsection \<open>The processed-bytes counter\<close>

lemma validate_fst_exceeds:
  "fst (validateProcessedBytes n s) = (if exceeds n s then Some entityTooLarge else None)"
  by (simp add: validate_fst exceeds_def split: option.splits)

lemma processedBytes_frame [simp]:
  "processedBytes (onError e s) = processedBytes s"
  "processedBytes (snd (abort e s)) = processedBytes s"
  "processedBytes (handlePart pid p s) = processedBytes s"
  "processedBytes (handlePartSettled pid out s) = processedBytes s"
  "processedBytes (onPartHandled pid s) = processedBytes s"
  by (simp_all add: onError_def abort_def handlePart_def handlePartSettled_def
      onPartHandled_def case_prod_unfold Let_def
      split: option.splits property.splits sum.splits)

lemma progress_processedBytes:
  "processedBytes (snd (progress pid line s))
     = processedBytes s
       + (if hasCallback pid s \<and> \<not> unlimited (upperLimit s) then int (length line) else 0)"
  by (auto simp: progress_def case_prod_unfold Let_def validate_snd hasCallback_def
      split: option.splits)

lemma onField_processedBytes:
  "processedBytes (snd (onField fieldsAdd key val s))
     = processedBytes s + (if key \<noteq> [] \<and> \<not> unlimited (upperLimit s) then int (length val) else 0)"
  by (auto simp: onField_def handleField_def fieldsAdd_def case_prod_unfold validate_snd
      split: option.splits)

lemma step_processedBytes:
  "processedBytes (step bytes e s)
     = processedBytes s + (if unlimited (upperLimit s) then 0 else int (fed e s))"
  by (cases e)
     (simp_all add: step_def onFile_def process_def processConfig_def Let_def onClose_def
        progress_processedBytes onField_processedBytes split: option.splits)

lemma run_processedBytes_mono: "processedBytes s \<le> processedBytes (run bytes es s)"
proof (induction es arbitrary: s)
  case Nil
  then show ?case by simp
next
  case (Cons e es)
  have "processedBytes s \<le> processedBytes (step bytes e s)"
    by (simp add: step_processedBytes)
  also have "\<dots> \<le> processedBytes (run bytes es (step bytes e s))"
    by (rule Cons.IH)
  finally show ?case by simp
qed

lemma field_checked:
  assumes "form s \<noteq> None" "key \<noteq> []"
  shows "promise (step bytes (DecoderField key val) s)
           = (if exceeds (length val) s then reject entityTooLarge (promise s) else promise s)"
  using assms
  by (auto simp: step_def onField_def handleField_def fieldsAdd_def case_prod_unfold
      validate_fst_exceeds abort_started validate_snd rejection_def entityTooLarge_def
      split: option.splits)

lemma chunk_emitted:
  assumes "hasCallback pid s"
  shows "emittedOn pid (step bytes (HandlerProgress pid line) s)
           = emittedOn pid s @ (if exceeds (length line) s then [entityTooLarge] else [])"
proof (cases "exceeds (length line) s")
  case False
  then have "fst (validateProcessedBytes (length line) s) = None"
    by (simp add: validate_fst_exceeds)
  then show ?thesis
    using False progress_within(1) [OF assms] by (simp add: step_def)
next
  case True
  then have v: "fst (validateProcessedBytes (length line) s) = Some entityTooLarge"
    by (simp add: validate_fst_exceeds)
  obtain r where r: "map_of (parts s) pid = Some r"
    using assms by (auto simp: hasCallback_def split: option.splits)
  obtain s1 where p: "validateProcessedBytes (length line) s = (Some entityTooLarge, s1)"
    using v by (cases "validateProcessedBytes (length line) s") auto
  have "s1 = snd (validateProcessedBytes (length line) s)" using p by simp
  then have f: "parts s1 = parts s" by simp
  have "emittedOn pid (snd (progress pid line s)) = emittedOn pid s @ [entityTooLarge]"
    using assms r p f
    by (auto simp: progress_def Let_def abort_def setRun_def emittedOn_def update_conv'
        emitOnPart_def trackProgress_def onError_def split: option.splits)
  then show ?thesis using True by (simp add: step_def)
qed

lemma chunk_checked:
  assumes "form s \<noteq> None" "hasCallback pid s" "listeningOn pid s"
  shows "promise (step bytes (HandlerProgress pid line) s)
           = (if exceeds (length line) s then reject entityTooLarge (promise s) else promise s)"
proof (cases "exceeds (length line) s")
  case False
  then have "fst (validateProcessedBytes (length line) s) = None"
    by (simp add: validate_fst_exceeds)
  then show ?thesis
    using False progress_within(2) [OF assms(2)] by (simp add: step_def)
next
  case True
  then have "fst (validateProcessedBytes (length line) s) = Some entityTooLarge"
    by (simp add: validate_fst_exceeds)
  then show ?thesis
    using True progress_exceeded(3) [OF assms(2) assms(1) assms(3)] by (simp add: step_def)
qed

text \<open>
  Claim C2, as amended. The processed-bytes counter never decreases along a run. While
  a limit is in force (\<open>upperLimit\<close> is neither \<open>undefined\<close>, \<open>null\<close> nor \<open>0\<close>), a
  callback adds to it exactly the bytes it hands to the guard: the length of each chunk
  reported through a progress callback and of each field value with a non-empty key;
  and right after that addition the counter is compared with the limit. Exactly when a
  field passes the limit, the outer promise is rejected with the size-exceeded
  exception. Exactly when a chunk passes it, the size-exceeded exception is handed to
  \<open>emit\<close> on the chunk's part, and where that part's stream has a listener for
  \<open>error\<close> the outer promise is rejected with it. While no limit is in force the counter does not move and nothing exceeds. A
  field with an empty key changes nothing.
\<close>

theorem processed_bytes_counter:
  "processedBytes s \<le> processedBytes (run bytes es s)
   \<and> processedBytes (step bytes e s)
       = processedBytes s + (if unlimited (upperLimit s) then 0 else int (fed e s))
   \<and> (form s \<noteq> None \<and> key \<noteq> [] \<longrightarrow>
        promise (step bytes (DecoderField key val) s)
          = (if exceeds (length val) s then reject entityTooLarge (promise s) else promise s))
   \<and> (hasCallback pid s \<longrightarrow>
        emittedOn pid (step bytes (HandlerProgress pid line) s)
          = emittedOn pid s @ (if exceeds (length line) s then [entityTooLarge] else []))
   \<and> (form s \<noteq> None \<and> hasCallback pid s \<and> listeningOn pid s \<longrightarrow>
        promise (step bytes (HandlerProgress pid line) s)
          = (if exceeds (length line) s then reject entityTooLarge (promise s) else promise s))
   \<and> (unlimited (upperLimit s) \<longrightarrow> \<not> exceeds n s)
   \<and> step bytes (DecoderField [] val) s = s"
proof (intro conjI impI)
  show "processedBytes s \<le> processedBytes (run bytes es s)"
    by (rule run_processedBytes_mono)
  show "processedBytes (step bytes e s)
       = processedBytes s + (if unlimited (upperLimit s) then 0 else int (fed e s))"
    by (rule step_processedBytes)
  show "promise (step bytes (DecoderField key val) s)
          = (if exceeds (length val) s then reject entityTooLarge (promise s) else promise s)"
    if "form s \<noteq> None \<and> key \<noteq> []"
    using that by (simp add: field_checked)
  show "emittedOn pid (step bytes (HandlerProgress pid line) s)
          = emittedOn pid s @ (if exceeds (length line) s then [entityTooLarge] else [])"
    if "hasCallback pid s"
    using that by (rule chunk_emitted)
  show "promise (step bytes (HandlerProgress pid line) s)
          = (if exceeds (length line) s then reject entityTooLarge (promise s) else promise s)"
    if "form s \<noteq> None \<and> hasCallback pid s \<and> listeningOn pid s"
    using that by (simp add: chunk_checked)
  show "\<not> exceeds n s" if "unlimited (upperLimit s)"
    using that by (auto simp: exceeds_def unlimited_def)
  show "step bytes (DecoderField [] val) s = s"
    by (simp add: step_def onField_def handleField_def)
qed

theorem processed_bytes_counter_witness:
  "processedBytes (step (\<lambda>x. None) (DecoderField ''note'' ''hello'') limited10) = 5
   \<and> promise (step (\<lambda>x. None) (DecoderField ''note'' ''hello'') limited10) = Unsettled
   \<and> promise (step (\<lambda>x. None) (DecoderField ''note2'' ''worldworld1'') limited10)
       = Rejected (Exception ''request entity too large'' 413 ''E_REQUEST_ENTITY_TOO_LARGE'')"
proof -
  have f: "form limited10 \<noteq> None \<and> ''note'' \<noteq> []" "form limited10 \<noteq> None \<and> ''note2'' \<noteq> []"
    by (simp_all add: limited10_def started_def process_def processConfig_def Multipart_def Let_def)
  have u: "\<not> unlimited (upperLimit limited10)" "processedBytes limited10 = 0"
      "promise limited10 = Unsettled"
      "\<not> exceeds (length ''hello'') limited10" "exceeds (length ''worldworld1'') limited10"
    by (simp_all add: limited10_def started_def process_def processConfig_def Multipart_def
        assign_def Let_def unlimited_def exceeds_def)
  note t = processed_bytes_counter [where s = limited10 and bytes = "\<lambda>x. None"]
  show ?thesis
    using t [where e = "DecoderField ''note'' ''hello''", THEN conjunct2, THEN conjunct1]
      t [where key = "''note''" and val = "''hello''",
         THEN conjunct2, THEN conjunct2, THEN conjunct1, rule_format, OF f(1)]
      t [where key = "''note2''" and val = "''worldworld1''",
         THEN conjunct2, THEN conjunct2, THEN conjunct1, rule_format, OF f(2)]
      f u
    by (simp add: reject_def entityTooLarge_def)
qed

text \<open>
  Claim C2 as stated fails: with no limit configured a field of five bytes is seen and
  the counter stays at 0; with a limit of ten bytes a field of eleven bytes with an
  empty key is neither counted nor checked.
\<close>

theorem counter_idle_without_limit_counterexample:
  "sum_list (map spec_bytesSeen [Process None, DecoderField ''note'' ''hello'']) = 5
   \<and> processedBytes (run (\<lambda>x. None) [Process None, DecoderField ''note'' ''hello'']
      (Multipart \<lparr> limit = None, maxFields = None \<rparr>)) = 0
   \<and> processedBytes (run (\<lambda>x. None)
        [Process (Some \<lparr> limit = Some (LimitNumber 10), maxFields = None \<rparr>),
         DecoderField [] ''worldworld1'']
      (Multipart \<lparr> limit = None, maxFields = None \<rparr>)) = 0
   \<and> promise (run (\<lambda>x. None)
        [Process (Some \<lparr> limit = Some (LimitNumber 10), maxFields = None \<rparr>),
         DecoderField [] ''worldworld1'']
      (Multipart \<lparr> limit = None, maxFields = None \<rparr>)) = Unsettled"
  by code_simp

subsection \<open>Completion and aggregation\<close>

lemma request_frame [simp]:
  "request (snd (validateProcessedBytes n s)) = request s"
  "request (onError e s) = request s"
  "request (snd (abort e s)) = request s"
  "request (setRun pid r s) = request s"
  "request (snd (afterHandler out ph s)) = request s"
  "request (handlePart pid p s) = request s"
  "request (handlePartSettled pid out s) = request s"
  "request (snd (progress pid line s)) = request s"
  "request (snd (onField add k v s)) = request s"
  by (simp_all add: validate_snd onError_def abort_def setRun_def afterHandler_def handlePart_def
      handlePartSettled_def progress_def onField_def handleField_def case_prod_unfold Let_def
      split: option.splits property.splits sum.splits)

lemma setRun_acc [simp]:
  "fields' (setRun pid r s) = fields' s" "files (setRun pid r s) = files s"
  by (simp_all add: setRun_def)

lemma isClosed_setRun [simp]: "isClosed (setRun pid r s) = isClosed s"
  by (simp add: isClosed_def setRun_def split: option.splits)

lemma checkClosed_eq:
  "checkClosed s = (if isClosed s = Inr True then (cleanup s)\<lparr>promise := resolve (promise s)\<rparr> else s)"
  by (auto simp: checkClosed_def split: sum.splits bool.splits)

lemma isClosed_None: "form s = None \<Longrightarrow> isClosed s \<noteq> Inr True"
  by (simp add: isClosed_def)

lemma step_bodies:
  "initialBodies (request (step bytes e s))
     = initialBodies (request s) @ (if completes e s then [FormFields_get (fields' s)] else [])"
  by (cases e)
     (auto simp: step_def onFile_def process_def processConfig_def Let_def onClose_def
        onPartHandled_def checkClosed_eq cleanup_def isClosed_None
        split: option.splits)

lemma step_completes:
  assumes "completes e s"
  shows "promise (step bytes e s) = resolve (promise s)"
    "raw_files (request (step bytes e s)) = Some (FormFields_get (files s))"
proof -
  show "promise (step bytes e s) = resolve (promise s)"
    using assms
    by (cases e)
       (auto simp: step_def onClose_def onPartHandled_def checkClosed_eq cleanup_def
          isClosed_None split: option.splits)
  show "raw_files (request (step bytes e s)) = Some (FormFields_get (files s))"
    using assms
    by (cases e)
       (auto simp: step_def onClose_def onPartHandled_def checkClosed_eq cleanup_def
          isClosed_None split: option.splits)
qed

lemma promise_frame:
  "promise (snd (validateProcessedBytes n s)) = promise s"
  "promise (setRun pid r s) = promise s"
  "promise (snd (afterHandler out ph s)) = promise s"
  "promise (handlePart pid p s) = promise s"
  "promise (handlePartSettled pid out s) = promise s"
  by (simp_all add: handlePart_def handlePartSettled_def case_prod_unfold
      split: option.splits property.splits)

lemma settled_stays:
  "settled p \<Longrightarrow> resolve p = p" "settled p \<Longrightarrow> reject e p = p"
  by (auto simp: settled_def resolve_def reject_def split: promise.splits)

lemma step_settled:
  assumes "consumed s" "settled (promise s)"
  shows "promise (step bytes e s) = promise s"
  using assms
  by (cases e)
     (auto simp: step_def onFile_def process_def onClose_def onPartHandled_def checkClosed_eq
        cleanup_def abort_def onError_def onField_def handleField_def fieldsAdd_def
        progress_def case_prod_unfold Let_def promise_frame settled_stays
        split: option.splits)

lemma run_settled:
  "consumed s \<Longrightarrow> settled (promise s) \<Longrightarrow> promise (run bytes es s) = promise s"
proof (induction es arbitrary: s)
  case Nil
  then show ?case by simp
next
  case (Cons e es)
  have "promise (step bytes e s) = promise s" using Cons.prems by (rule step_settled)
  moreover have "consumed (step bytes e s)" using Cons.prems(1) by (simp add: step_consumed)
  ultimately show ?case using Cons by simp
qed

lemma step_resolved:
  "promise (step bytes e s) = Resolved \<Longrightarrow> promise s = Resolved \<or> completes e s"
  by (cases e)
     (auto simp: step_def onFile_def process_def processConfig_def onClose_def onPartHandled_def
        checkClosed_eq cleanup_def abort_def onError_def onField_def handleField_def
        fieldsAdd_def progress_def case_prod_unfold Let_def promise_frame reject_def
        split: option.splits if_splits)

lemma run_resolved_published:
  "promise s = Resolved \<longrightarrow> initialBodies (request s) \<noteq> [] \<Longrightarrow>
   promise (run bytes es s) = Resolved \<longrightarrow> initialBodies (request (run bytes es s)) \<noteq> []"
proof (induction es arbitrary: s)
  case Nil
  then show ?case by simp
next
  case (Cons e es)
  have "promise (step bytes e s) = Resolved \<longrightarrow> initialBodies (request (step bytes e s)) \<noteq> []"
    using Cons.prems step_resolved [of bytes e s] by (auto simp: step_bodies)
  then show ?case using Cons.IH by simp
qed

text \<open>
  Claim C1, as amended. A callback runs \<open>cleanup\<close> exactly when it evaluates the
  completion predicate and finds it true (at the decoder's close notification, or when
  the handling of a part has finished), and it runs it once then: the field mapping is
  published, the file mapping is published, and \<open>resolve\<close> is called right after. Once
  the outer promise is settled no callback changes it, so a later \<open>resolve\<close> does
  nothing; and a resolved promise has had at least one \<open>cleanup\<close> before it. Nothing
  keeps \<open>cleanup\<close> from running again when the predicate is found true again.
\<close>

theorem aggregation_before_each_resolve:
  "initialBodies (request (step bytes e s))
     = initialBodies (request s) @ (if completes e s then [FormFields_get (fields' s)] else [])
   \<and> (completes e s \<longrightarrow>
         promise (step bytes e s) = resolve (promise s)
       \<and> raw_files (request (step bytes e s)) = Some (FormFields_get (files s)))
   \<and> (consumed s \<and> settled (promise s) \<longrightarrow> promise (run bytes es s) = promise s)
   \<and> (promise (run bytes es (Multipart cfg)) = Resolved \<longrightarrow>
         initialBodies (request (run bytes es (Multipart cfg))) \<noteq> [])"
proof (intro conjI impI)
  show "initialBodies (request (step bytes e s))
     = initialBodies (request s) @ (if completes e s then [FormFields_get (fields' s)] else [])"
    by (rule step_bodies)
  show "promise (step bytes e s) = resolve (promise s)" if "completes e s"
    using that by (rule step_completes)
  show "raw_files (request (step bytes e s)) = Some (FormFields_get (files s))" if "completes e s"
    using that by (rule step_completes)
  show "promise (run bytes es s) = promise s" if "consumed s \<and> settled (promise s)"
    using that by (simp add: run_settled)
  show "initialBodies (request (run bytes es (Multipart cfg))) \<noteq> []"
    if "promise (run bytes es (Multipart cfg)) = Resolved"
    using that run_resolved_published [of "Multipart cfg" bytes es]
    by (simp add: Multipart_def)
qed

theorem aggregation_before_each_resolve_witness:
  "initialBodies (request (step (\<lambda>x. None) (PartHandled 0) uploadDone)) = [[]]
   \<and> promise (step (\<lambda>x. None) (PartHandled 0) uploadDone) = Resolved
   \<and> promise (run (\<lambda>x. None) [DecoderError (Error ''late'')]
                 (step (\<lambda>x. None) (PartHandled 0) uploadDone)) = Resolved"
proof -
  have c: "completes (PartHandled 0) uploadDone" by code_simp
  have p: "promise uploadDone = Unsettled" "initialBodies (request uploadDone) = []"
     "fields' uploadDone = []"
    by code_simp+
  note t = aggregation_before_each_resolve
             [where s = uploadDone and e = "PartHandled 0" and bytes = "\<lambda>x. None"]
  have r: "promise (step (\<lambda>x. None) (PartHandled 0) uploadDone) = Resolved"
    using t [THEN conjunct2, THEN conjunct1] c p by (simp add: resolve_def)
  have s: "consumed (step (\<lambda>x. None) (PartHandled 0) uploadDone)
           \<and> settled (promise (step (\<lambda>x. None) (PartHandled 0) uploadDone))"
    unfolding r by (simp add: settled_def step_consumed) code_simp
  show ?thesis
    using t [THEN conjunct1] c p r
      aggregation_before_each_resolve
        [where s = "step (\<lambda>x. None) (PartHandled 0) uploadDone" and bytes = "\<lambda>x. None"
           and es = "[DecoderError (Error ''late'')]",
         THEN conjunct2, THEN conjunct2, THEN conjunct1, rule_format, OF s]
    by (simp add: FormFields_get_def del: run.simps)
qed

text \<open>
  Claim C1 as stated fails. One part: its stream ends, its handler returns, the rest of
  the \<open>part\<close> listener finds the predicate true, runs \<open>cleanup\<close> and resolves; then
  the decoder's close notification finds the predicate true again and runs \<open>cleanup\<close> a
  second time. Two parts whose handlers return in the same turn after the close
  notification: both listeners find the predicate true, and \<open>cleanup\<close> runs twice.
\<close>

theorem aggregation_twice_counterexample:
  "length (initialBodies (request (run (\<lambda>x. None)
       [OnFile ''avatar'' None 1, Process None, DecoderFlushing 1,
        DecoderPart 0 ''avatar'' ''a.png'', HandlerProgress 0 ''hello'', DecoderFlushing 0,
        HandlerSettled 0 (Returned None), PartHandled 0, DecoderClose]
       (Multipart \<lparr> limit = None, maxFields = None \<rparr>)))) = 2
   \<and> promise (run (\<lambda>x. None)
       [OnFile ''avatar'' None 1, Process None, DecoderFlushing 1,
        DecoderPart 0 ''avatar'' ''a.png'', HandlerProgress 0 ''hello'', DecoderFlushing 0,
        HandlerSettled 0 (Returned None), PartHandled 0]
       (Multipart \<lparr> limit = None, maxFields = None \<rparr>)) = Resolved
   \<and> length (initialBodies (request (run (\<lambda>x. None)
       [OnFile ''*'' None 1, Process None, DecoderFlushing 1,
        DecoderPart 0 ''a'' ''a.png'', DecoderFlushing 0, DecoderFlushing 1,
        DecoderPart 1 ''b'' ''b.png'', DecoderFlushing 0, DecoderClose,
        HandlerSettled 0 (Returned None), HandlerSettled 1 (Returned None),
        PartHandled 0, PartHandled 1]
       (Multipart \<lparr> limit = None, maxFields = None \<rparr>)))) = 2"
  by code_simp

end
